theory Spec2Isabelle
  imports Main "HOL-Library.Word"
begin

unbundle bit_operations_syntax

section \<open>Data model of core/rend/vulkan/texture.h\<close>

type_synonym u32 = "32 word"
type_synonym u64 = "64 word"

text \<open>
  A non-null Vulkan handle (or the identity of an owned heap object) is a number.  An owning
  smart handle (\<^verbatim>\<open>vk::UniqueImage\<close>, \<^verbatim>\<open>vk::UniqueImageView\<close>,
  \<^verbatim>\<open>std::unique_ptr<BufferData>\<close>) and a plain \<^verbatim>\<open>vk::ImageView\<close> are
  \<open>handle option\<close>: \<open>None\<close> is the null handle, which is what a moved-from owner holds.
\<close>

type_synonym handle = nat

text \<open>A \<^verbatim>\<open>Texture *\<close> is an address.\<close>

type_synonym tex_ptr = nat

text \<open>What the device is asked to destroy when an owner goes away.\<close>

datatype resource = Image handle | ImageView handle | Memory handle | Buffer handle

text \<open>
  The C++ has no checked failures here; the ways it goes wrong are results of the model:
  indexing a vector past its end and following a pointer to no object (both undefined
  behaviour), and a loop that does not return.  \<open>ResourceExhausted\<close> is the failure the
  spec gives to an upload whose allocation fails.
\<close>

datatype error = OutOfRange | InvalidPointer | NoReturn | ResourceExhausted

type_synonym Format = nat

definition eUndefined :: Format where
  "eUndefined = 0"

text \<open>
  The members of \<^verbatim>\<open>class Texture\<close>, lines 75 to 85 (the command buffer and the two
  device references play no part in the functions below and are left out).

  Modelled from the spec: \<^verbatim>\<open>Allocation\<close> is declared in a header that is not part of
  these sources; it is an owner of a memory allocation that \<^verbatim>\<open>std::move\<close> empties, as
  the spec has \<open>destroyLater\<close> move the memory allocation into the trash bin.
\<close>

record Texture =
  format :: Format
  extent :: "u32 \<times> u32"
  mipmapLevels :: u32
  needsStaging :: bool
  stagingBufferData :: "handle option"
  allocation :: "handle option"
  image_h :: "handle option"
  imageView :: "handle option"
  readOnlyImageView :: "handle option"

definition GetImageView :: "Texture \<Rightarrow> handle option" where
  "GetImageView t = imageView t"

definition GetImage :: "Texture \<Rightarrow> handle option" where
  "GetImage t = image_h t"

definition GetReadOnlyImageView :: "Texture \<Rightarrow> handle option" where
  "GetReadOnlyImageView t =
     (if readOnlyImageView t \<noteq> None then readOnlyImageView t else imageView t)"

definition getSize :: "Texture \<Rightarrow> u32 \<times> u32" where
  "getSize t = extent t"

text \<open>
  The private members of \<^verbatim>\<open>class TextureCache\<close>, lines 248 to 253, together with what
  its methods act on: \<open>textures\<close> is the store of the \<^verbatim>\<open>Texture\<close> objects the pointers
  refer to, and \<open>destroyed\<close> collects what the destructors of the owners held in a cleared
  vector have released on the device.

  Modelled from the spec: \<open>cache\<close> is the descriptor-to-object map of the base class
  \<^verbatim>\<open>BaseTextureCache\<close>, whose header rend/TexCache.h is not part of these sources.
\<close>

record TextureCache =
  textures :: "tex_ptr \<rightharpoonup> Texture"
  destroyed :: "resource set"
  cache :: "u64 \<rightharpoonup> tex_ptr"
  inFlightTextures :: "tex_ptr set list"
  trashedImageViews :: "handle option list list"
  trashedImages :: "handle option list list"
  trashedMem :: "handle option list list"
  trashedBuffers :: "handle option list list"
  currentIndex :: u32

text \<open>A cache as its constructor leaves it: empty vectors, \<^verbatim>\<open>currentIndex = 0\<close>.\<close>

definition new_TextureCache :: "(tex_ptr \<rightharpoonup> Texture) \<Rightarrow> TextureCache" where
  "new_TextureCache h =
     \<lparr>textures = h, destroyed = {}, cache = Map.empty, inFlightTextures = [],
      trashedImageViews = [], trashedImages = [], trashedMem = [], trashedBuffers = [],
      currentIndex = 0\<rparr>"

section \<open>The methods of TextureCache\<close>

text \<open>
  \<^verbatim>\<open>EmptyTrash\<close>, lines 241 to 247.  \<^verbatim>\<open>currentIndex + 1\<close> is computed in 32 bits
  and wraps; \<^verbatim>\<open>resize\<close> appends default-constructed elements.  The result is the vector
  and the content of the cleared element.
\<close>

definition resize_to :: "'c \<Rightarrow> nat \<Rightarrow> 'c list \<Rightarrow> 'c list" where
  "resize_to emp n v = (if length v < n then v @ replicate (n - length v) emp else v)"

definition EmptyTrash :: "'c \<Rightarrow> u32 \<Rightarrow> 'c list \<Rightarrow> error + ('c list \<times> 'c)" where
  "EmptyTrash emp ci v =
     (let v' = resize_to emp (unat (ci + 1)) v
      in if unat ci < length v' then Inr (v'[unat ci := emp], v' ! unat ci)
         else Inl OutOfRange)"

text \<open>The non-null handles among the owners of a cleared vector, tagged by their kind.\<close>

definition released :: "(handle \<Rightarrow> resource) \<Rightarrow> handle option list \<Rightarrow> resource set" where
  "released C xs = C ` (\<Union>x \<in> set xs. set_option x)"

text \<open>The \<^verbatim>\<open>for_each\<close> of lines 181 and 182: every texture of the set loses its alias view.\<close>

definition clearReadOnly ::
  "tex_ptr set \<Rightarrow> (tex_ptr \<rightharpoonup> Texture) \<Rightarrow> error + (tex_ptr \<rightharpoonup> Texture)" where
  "clearReadOnly S h =
     (if \<exists>p \<in> S. h p = None then Inl InvalidPointer
      else Inr (\<lambda>p. if p \<in> S then map_option (\<lambda>t. t\<lparr>readOnlyImageView := None\<rparr>) (h p)
                    else h p))"

text \<open>
  \<^verbatim>\<open>SetCurrentIndex\<close>, lines 179 to 189.  The parameter is an \<^verbatim>\<open>int\<close>; the assignment
  to the \<^verbatim>\<open>u32\<close> member converts it modulo \<open>2 ^ 32\<close>.
\<close>

definition SetCurrentIndex :: "int \<Rightarrow> TextureCache \<Rightarrow> error + TextureCache" where
  "SetCurrentIndex index s =
     (case (if unat (currentIndex s) < length (inFlightTextures s)
            then clearReadOnly (inFlightTextures s ! unat (currentIndex s)) (textures s)
            else Inr (textures s)) of
        Inl e \<Rightarrow> Inl e
      | Inr h \<Rightarrow>
     (let ci = (word_of_int index :: u32) in
      case EmptyTrash {} ci (inFlightTextures s) of
        Inl e \<Rightarrow> Inl e
      | Inr (ift, _) \<Rightarrow>
     (case EmptyTrash [] ci (trashedImageViews s) of
        Inl e \<Rightarrow> Inl e
      | Inr (tiv, dv) \<Rightarrow>
     (case EmptyTrash [] ci (trashedImages s) of
        Inl e \<Rightarrow> Inl e
      | Inr (ti, di) \<Rightarrow>
     (case EmptyTrash [] ci (trashedMem s) of
        Inl e \<Rightarrow> Inl e
      | Inr (tm, dm) \<Rightarrow>
     (case EmptyTrash [] ci (trashedBuffers s) of
        Inl e \<Rightarrow> Inl e
      | Inr (tb, db) \<Rightarrow>
        Inr (s\<lparr>textures := h, currentIndex := ci, inFlightTextures := ift,
               trashedImageViews := tiv, trashedImages := ti, trashedMem := tm,
               trashedBuffers := tb,
               destroyed := destroyed s \<union> released ImageView dv \<union> released Image di
                              \<union> released Memory dm \<union> released Buffer db\<rparr>)))))))"

text \<open>
  \<^verbatim>\<open>IsInFlight\<close>, lines 191 to 197.  The counter is a \<^verbatim>\<open>u32\<close> compared with a
  \<^verbatim>\<open>size_t\<close>: on a vector of \<open>2 ^ 32\<close> or more sets it wraps and the loop need not
  return, which is the result \<open>None\<close>.
\<close>

partial_function (option) IsInFlight_loop ::
  "tex_ptr set list \<Rightarrow> u32 \<Rightarrow> tex_ptr \<Rightarrow> u32 \<Rightarrow> bool option" where
  "IsInFlight_loop v ci texture i =
     (if unat i < length v
      then (if i \<noteq> ci \<and> texture \<in> v ! unat i then Some True
            else IsInFlight_loop v ci texture (i + 1))
      else Some False)"

definition IsInFlight :: "tex_ptr \<Rightarrow> TextureCache \<Rightarrow> bool option" where
  "IsInFlight texture s = IsInFlight_loop (inFlightTextures s) (currentIndex s) texture 0"

text \<open>\<^verbatim>\<open>SetInFlight\<close>, lines 199 to 202: an unchecked \<^verbatim>\<open>operator[]\<close>.\<close>

definition SetInFlight :: "tex_ptr \<Rightarrow> TextureCache \<Rightarrow> error + TextureCache" where
  "SetInFlight texture s =
     (let i = unat (currentIndex s)
      in if i < length (inFlightTextures s)
         then Inr (s\<lparr>inFlightTextures :=
                        (inFlightTextures s)[i := insert texture (inFlightTextures s ! i)]\<rparr>)
         else Inl OutOfRange)"

text \<open>
  \<^verbatim>\<open>DestroyLater\<close>, lines 204 to 213.  Each \<^verbatim>\<open>push_back(std::move(...))\<close> appends
  the owner to the bin of the current slot and leaves the member of the texture null.
\<close>

definition DestroyLater :: "tex_ptr \<Rightarrow> TextureCache \<Rightarrow> error + TextureCache" where
  "DestroyLater texture s =
     (case textures s texture of
        None \<Rightarrow> Inl InvalidPointer
      | Some t \<Rightarrow>
          if image_h t = None then Inr s
          else
            let i = unat (currentIndex s)
            in if i < length (trashedImages s) \<and> i < length (trashedImageViews s)
                  \<and> i < length (trashedMem s) \<and> i < length (trashedBuffers s)
               then Inr (s\<lparr>trashedImages :=
                              (trashedImages s)[i := trashedImages s ! i @ [image_h t]],
                            trashedImageViews :=
                              (trashedImageViews s)[i := trashedImageViews s ! i @ [imageView t]],
                            trashedMem :=
                              (trashedMem s)[i := trashedMem s ! i @ [allocation t]],
                            trashedBuffers :=
                              (trashedBuffers s)[i := trashedBuffers s ! i @ [stagingBufferData t]],
                            textures := (textures s)(texture \<mapsto>
                              t\<lparr>image_h := None, imageView := None, allocation := None,
                                stagingBufferData := None, format := eUndefined\<rparr>)\<rparr>)
               else Inl OutOfRange)"

text \<open>
  Modelled from the spec: \<^verbatim>\<open>BaseTextureCache::Clear\<close> is defined in rend/TexCache.h,
  which is not part of these sources.  The spec has \<open>clear()\<close> drop every cache entry; the
  objects were owned by the map, so they go with it.
\<close>

definition BaseTextureCache_Clear :: "TextureCache \<Rightarrow> TextureCache" where
  "BaseTextureCache_Clear s =
     s\<lparr>cache := Map.empty,
       textures := (\<lambda>p. if p \<in> ran (cache s) then None else textures s p)\<rparr>"

text \<open>\<^verbatim>\<open>Clear\<close>, lines 217 to 230: every element of every vector is cleared in place.\<close>

definition Clear :: "TextureCache \<Rightarrow> TextureCache" where
  "Clear s =
     (let s0 = BaseTextureCache_Clear s
      in s0\<lparr>inFlightTextures := map (\<lambda>_. {}) (inFlightTextures s0),
            trashedImageViews := map (\<lambda>_. []) (trashedImageViews s0),
            trashedImages := map (\<lambda>_. []) (trashedImages s0),
            trashedMem := map (\<lambda>_. []) (trashedMem s0),
            trashedBuffers := map (\<lambda>_. []) (trashedBuffers s0),
            destroyed := destroyed s0
              \<union> (\<Union>v \<in> set (trashedImageViews s0). released ImageView v)
              \<union> (\<Union>v \<in> set (trashedImages s0). released Image v)
              \<union> (\<Union>v \<in> set (trashedMem s0). released Memory v)
              \<union> (\<Union>v \<in> set (trashedBuffers s0). released Buffer v)\<rparr>)"

text \<open>
  \<^verbatim>\<open>clearTexture\<close>, lines 233 to 239.  \<^verbatim>\<open>Texture::Delete\<close> is inherited from a class
  outside these sources and is a parameter.
\<close>

definition clearTexture ::
  "(Texture \<Rightarrow> bool \<times> Texture) \<Rightarrow> tex_ptr \<Rightarrow> TextureCache \<Rightarrow> error + (bool \<times> TextureCache)" where
  "clearTexture Delete tex s =
     (let s1 = s\<lparr>inFlightTextures := map (\<lambda>st. st - {tex}) (inFlightTextures s)\<rparr>
      in case textures s1 tex of
           None \<Rightarrow> Inl InvalidPointer
         | Some t \<Rightarrow> (let (b, t') = Delete t
                      in Inr (b, s1\<lparr>textures := (textures s1)(tex \<mapsto> t')\<rparr>)))"

section \<open>Sequences of calls\<close>

text \<open>The methods of the class as a datatype of calls, and a run that stops at the first failure.\<close>

datatype call =
    CallSetCurrentIndex int
  | CallIsInFlight tex_ptr
  | CallSetInFlight tex_ptr
  | CallDestroyLater tex_ptr
  | CallClear
  | CallClearTexture tex_ptr

fun step :: "(Texture \<Rightarrow> bool \<times> Texture) \<Rightarrow> call \<Rightarrow> TextureCache \<Rightarrow> error + TextureCache" where
  "step D (CallSetCurrentIndex i) s = SetCurrentIndex i s"
| "step D (CallIsInFlight t) s = (case IsInFlight t s of None \<Rightarrow> Inl NoReturn | Some _ \<Rightarrow> Inr s)"
| "step D (CallSetInFlight t) s = SetInFlight t s"
| "step D (CallDestroyLater t) s = DestroyLater t s"
| "step D CallClear s = Inr (Clear s)"
| "step D (CallClearTexture t) s =
     (case clearTexture D t s of Inl e \<Rightarrow> Inl e | Inr (_, s') \<Rightarrow> Inr s')"

fun run :: "(Texture \<Rightarrow> bool \<times> Texture) \<Rightarrow> call list \<Rightarrow> TextureCache \<Rightarrow> error + TextureCache" where
  "run D [] s = Inr s"
| "run D (c # cs) s = (case step D c s of Inl e \<Rightarrow> Inl e | Inr s' \<Rightarrow> run D cs s')"

text \<open>Successive \<^verbatim>\<open>SetCurrentIndex\<close> calls.\<close>

fun run_slots :: "int list \<Rightarrow> TextureCache \<Rightarrow> error + TextureCache" where
  "run_slots [] s = Inr s"
| "run_slots (i # is) s = (case SetCurrentIndex i s of Inl e \<Rightarrow> Inl e | Inr s' \<Rightarrow> run_slots is s')"

text \<open>Every per-slot container has an element at the current slot.\<close>

definition covered :: "TextureCache \<Rightarrow> bool" where
  "covered s \<longleftrightarrow>
     unat (currentIndex s) < length (inFlightTextures s)
     \<and> unat (currentIndex s) < length (trashedImageViews s)
     \<and> unat (currentIndex s) < length (trashedImages s)
     \<and> unat (currentIndex s) < length (trashedMem s)
     \<and> unat (currentIndex s) < length (trashedBuffers s)"

text \<open>What the trash bins of slot \<open>k\<close> hold, over the four vectors.\<close>

definition bin_set :: "(handle \<Rightarrow> resource) \<Rightarrow> handle option list list \<Rightarrow> nat \<Rightarrow> resource set" where
  "bin_set C v k = (if k < length v then released C (v ! k) else {})"

definition trash_at :: "TextureCache \<Rightarrow> nat \<Rightarrow> resource set" where
  "trash_at s k =
     bin_set ImageView (trashedImageViews s) k \<union> bin_set Image (trashedImages s) k
     \<union> bin_set Memory (trashedMem s) k \<union> bin_set Buffer (trashedBuffers s) k"

text \<open>The live sub-resources a texture owns.\<close>

definition sub_resources :: "Texture \<Rightarrow> resource set" where
  "sub_resources t =
     released Image [image_h t] \<union> released ImageView [imageView t]
     \<union> released Memory [allocation t] \<union> released Buffer [stagingBufferData t]"

text \<open>
  The slots a ring of depth \<open>R\<close> visits in the \<open>n\<close> slot changes after slot \<open>k\<close>:
  \<open>k + 1\<close>, \<open>k + 2\<close>, ... modulo \<open>R\<close>.
\<close>

definition cycle_slots :: "nat \<Rightarrow> nat \<Rightarrow> nat \<Rightarrow> int list" where
  "cycle_slots R k n = map (\<lambda>i. int ((k + i) mod R)) [1..<Suc n]"

section \<open>SamplerManager\<close>

datatype Filter = eNearest | eLinear

datatype SamplerMipmapMode = eNearestMipmap | eLinearMipmap

datatype SamplerAddressMode = eRepeat | eMirroredRepeat | eClampToEdge

text \<open>
  The union \<^verbatim>\<open>TSP\<close> is declared outside these sources: the word \<^verbatim>\<open>full\<close> and the
  bit-fields that \<^verbatim>\<open>GetSampler\<close> reads are the fields of a record, and the layout that
  ties them together is left open.
\<close>

record TSP =
  full :: u32
  MipMapD :: nat
  FilterMode :: nat
  ClampU :: bool
  ClampV :: bool
  FlipU :: bool
  FlipV :: bool

text \<open>
  The arguments of \<^verbatim>\<open>vk::SamplerCreateInfo\<close> that vary (lines 132 to 136); \<open>'f\<close> stands
  for \<^verbatim>\<open>float\<close>, whose arithmetic is not interpreted.
\<close>

record 'f SamplerCreateInfo =
  magFilter :: Filter
  minFilter :: Filter
  mipmapMode :: SamplerMipmapMode
  addressModeU :: SamplerAddressMode
  addressModeV :: SamplerAddressMode
  addressModeW :: SamplerAddressMode
  mipLodBias :: 'f
  anisotropyEnable :: bool
  maxAnisotropy :: 'f

text \<open>
  What \<^verbatim>\<open>GetSampler\<close> reads from outside the class: the two configuration options, the
  Vulkan context, the table \<^verbatim>\<open>D_Adjust_LoD_Bias\<close>, and the conversion and minimum on
  \<^verbatim>\<open>float\<close>.
\<close>

record 'f sampler_env =
  TextureFiltering :: int
  AnisotropicFiltering :: int
  SupportsSamplerAnisotropy :: bool
  GetMaxSamplerAnisotropy :: 'f
  D_Adjust_LoD_Bias :: "nat \<Rightarrow> 'f"
  to_float :: "int \<Rightarrow> 'f"
  min_float :: "'f \<Rightarrow> 'f \<Rightarrow> 'f"

record SamplerManager =
  samplers :: "u32 \<rightharpoonup> handle"

definition TSP_Mask :: u32 where
  "TSP_Mask = 0x7ef00"

definition term_samplers :: "SamplerManager \<Rightarrow> SamplerManager" where
  "term_samplers m = m\<lparr>samplers := Map.empty\<rparr>"

text \<open>
  \<^verbatim>\<open>GetSampler\<close>, lines 102 to 137 (the branch taken when \<^verbatim>\<open>__APPLE__\<close> is not
  defined).  \<open>createSamplerUnique\<close> is the device: it hands out a sampler for the creation
  arguments and moves to its next state \<open>'d\<close>.
\<close>

definition GetSampler ::
  "'f sampler_env \<Rightarrow> ('f SamplerCreateInfo \<Rightarrow> 'd \<Rightarrow> handle \<times> 'd) \<Rightarrow> TSP
     \<Rightarrow> SamplerManager \<times> 'd \<Rightarrow> handle \<times> SamplerManager \<times> 'd" where
  "GetSampler env createSamplerUnique tsp md =
     (let (m, d) = md;
          samplerHash = full tsp AND TSP_Mask
      in case samplers m samplerHash of
           Some h \<Rightarrow> (h, m, d)
         | None \<Rightarrow>
            (let filter' =
                   (if TextureFiltering env = 0
                    then (if FilterMode tsp = 0 then eNearest else eLinear)
                    else if TextureFiltering env = 1 then eNearest
                    else eLinear);
                 uRepeat = (if ClampU tsp then eClampToEdge
                            else if FlipU tsp then eMirroredRepeat else eRepeat);
                 vRepeat = (if ClampV tsp then eClampToEdge
                            else if FlipV tsp then eMirroredRepeat else eRepeat);
                 anisotropicFiltering =
                   (AnisotropicFiltering env > 1 \<and> SupportsSamplerAnisotropy env
                    \<and> filter' = eLinear);
                 mipLodBias = D_Adjust_LoD_Bias env (MipMapD tsp);
                 mipmapMode = (if filter' = eLinear then eLinearMipmap else eNearestMipmap);
                 (h, d') = createSamplerUnique
                   \<lparr>magFilter = filter', minFilter = filter', mipmapMode = mipmapMode,
                    addressModeU = uRepeat, addressModeV = vRepeat,
                    addressModeW = eClampToEdge, mipLodBias = mipLodBias,
                    anisotropyEnable = anisotropicFiltering,
                    maxAnisotropy = min_float env (to_float env (AnisotropicFiltering env))
                                      (GetMaxSamplerAnisotropy env)\<rparr> d
             in (h, m\<lparr>samplers := (samplers m)(samplerHash \<mapsto> h)\<rparr>, d')))"

text \<open>Successive \<^verbatim>\<open>GetSampler\<close> calls, with the handle each one returns.\<close>

fun GetSamplers ::
  "'f sampler_env \<Rightarrow> ('f SamplerCreateInfo \<Rightarrow> 'd \<Rightarrow> handle \<times> 'd) \<Rightarrow> TSP list
     \<Rightarrow> SamplerManager \<times> 'd \<Rightarrow> handle list \<times> SamplerManager \<times> 'd" where
  "GetSamplers env cr [] md = ([], md)"
| "GetSamplers env cr (tsp # tsps) md =
     (let (h, md') = GetSampler env cr tsp md;
          (hs, md'') = GetSamplers env cr tsps md'
      in (h # hs, md''))"

section \<open>Texture upload\<close>

text \<open>The integer part of the binary logarithm.\<close>

fun log2 :: "nat \<Rightarrow> nat" where
  "log2 n = (if n < 2 then 0 else Suc (log2 (n div 2)))"

declare log2.simps [simp del]

text \<open>What a successful allocation hands to an upload; the staging buffer is optional.\<close>

record allocated =
  new_image :: handle
  new_view :: handle
  new_memory :: handle
  new_staging :: "handle option"

text \<open>
  Modelled from the spec: \<^verbatim>\<open>Texture::UploadToGPU\<close> is only declared in texture.h (line
  58); its body, and \<^verbatim>\<open>Init\<close>, \<^verbatim>\<open>SetImage\<close> and \<^verbatim>\<open>CreateImage\<close> that it relies
  on, are not part of these sources.  By the spec, \<open>upload\<close> reuses the existing image when
  one exists with the same extent and format; otherwise it allocates a new image for
  \<open>width \<times> height\<close> with \<open>mipmapRequested ? log2(max(width, height)) + 1 : 1\<close> levels, the
  old sub-resources are moved to the trash of the current slot as \<open>destroyLater\<close> does, and
  a failed allocation (\<open>alloc = None\<close>) is \<open>ResourceExhausted\<close> with the object in its
  prior state.  The pixel data is not represented.
\<close>

definition UploadToGPU ::
  "allocated option \<Rightarrow> tex_ptr \<Rightarrow> int \<Rightarrow> int \<Rightarrow> Format \<Rightarrow> bool \<Rightarrow> bool \<Rightarrow> TextureCache
     \<Rightarrow> error + TextureCache" where
  "UploadToGPU alloc obj width height fmt mipmapped mipmapsIncluded s =
     (case textures s obj of
        None \<Rightarrow> Inl InvalidPointer
      | Some t \<Rightarrow>
          if image_h t \<noteq> None \<and> extent t = (word_of_int width, word_of_int height)
             \<and> format t = fmt
          then Inr s
          else
            (case alloc of
               None \<Rightarrow> Inl ResourceExhausted
             | Some a \<Rightarrow>
                (case DestroyLater obj s of
                   Inl e \<Rightarrow> Inl e
                 | Inr s1 \<Rightarrow>
                     Inr (s1\<lparr>textures := (textures s1)(obj \<mapsto>
                            t\<lparr>format := fmt,
                              extent := (word_of_int width, word_of_int height),
                              mipmapLevels :=
                                (if mipmapped then of_nat (log2 (nat (max width height)) + 1)
                                 else 1),
                              stagingBufferData := new_staging a,
                              allocation := Some (new_memory a),
                              image_h := Some (new_image a),
                              imageView := Some (new_view a)\<rparr>)\<rparr>))))"

section \<open>Example states\<close>

text \<open>A texture with all its sub-resources and an alias view, at address 1.\<close>

definition tex_live :: Texture where
  "tex_live =
     \<lparr>format = 1, extent = (8, 8), mipmapLevels = 1, needsStaging = False,
      stagingBufferData = Some 13, allocation = Some 12, image_h = Some 10,
      imageView = Some 11, readOnlyImageView = Some 14\<rparr>"

text \<open>What \<^verbatim>\<open>DestroyLater\<close> leaves of it.\<close>

definition tex_trashed :: Texture where
  "tex_trashed =
     \<lparr>format = eUndefined, extent = (8, 8), mipmapLevels = 1, needsStaging = False,
      stagingBufferData = None, allocation = None, image_h = None,
      imageView = None, readOnlyImageView = Some 14\<rparr>"

text \<open>A cache with one slot, current, in which the texture is in flight.\<close>

definition st_one :: TextureCache where
  "st_one =
     \<lparr>textures = [1 \<mapsto> tex_live], destroyed = {}, cache = Map.empty,
      inFlightTextures = [{1}], trashedImageViews = [[]], trashedImages = [[]],
      trashedMem = [[]], trashedBuffers = [[]], currentIndex = 0\<rparr>"

text \<open>The same cache after \<^verbatim>\<open>DestroyLater\<close> of the texture.\<close>

definition st_one_trashed :: TextureCache where
  "st_one_trashed =
     \<lparr>textures = [1 \<mapsto> tex_trashed], destroyed = {}, cache = Map.empty,
      inFlightTextures = [{1}], trashedImageViews = [[Some 11]], trashedImages = [[Some 10]],
      trashedMem = [[Some 12]], trashedBuffers = [[Some 13]], currentIndex = 0\<rparr>"

text \<open>The lengths of the five per-slot vectors.\<close>

definition sizes :: "TextureCache \<Rightarrow> nat \<times> nat \<times> nat \<times> nat \<times> nat" where
  "sizes s = (length (inFlightTextures s), length (trashedImageViews s),
              length (trashedImages s), length (trashedMem s), length (trashedBuffers s))"

text \<open>A fresh cache with no texture after \<^verbatim>\<open>SetCurrentIndex(2)\<close>.\<close>

definition st_fresh3 :: TextureCache where
  "st_fresh3 =
     \<lparr>textures = Map.empty, destroyed = {}, cache = Map.empty,
      inFlightTextures = [{}, {}, {}], trashedImageViews = [[], [], []],
      trashedImages = [[], [], []], trashedMem = [[], [], []], trashedBuffers = [[], [], []],
      currentIndex = 2\<rparr>"

text \<open>
  A cache with two slots, slot 0 current: texture 1 is in flight in slot 0, texture 2 in
  slot 1, and both slots hold trash.
\<close>

definition st_two :: TextureCache where
  "st_two =
     \<lparr>textures = [1 \<mapsto> tex_live, 2 \<mapsto> tex_live], destroyed = {}, cache = [7 \<mapsto> 1],
      inFlightTextures = [{1}, {2}], trashedImageViews = [[Some 21], [Some 31]],
      trashedImages = [[Some 20], [Some 30]], trashedMem = [[Some 22], [Some 32]],
      trashedBuffers = [[None], [Some 33]], currentIndex = 0\<rparr>"

text \<open>
  The objects whose alias view a \<^verbatim>\<open>SetCurrentIndex(index)\<close> call clears according to the
  spec's sentence: those in flight in the slot being vacated that are in flight in a slot
  other than the new current one.
\<close>

definition claimed_cleared :: "int \<Rightarrow> TextureCache \<Rightarrow> tex_ptr set" where
  "claimed_cleared index s =
     {p. unat (currentIndex s) < length (inFlightTextures s)
         \<and> p \<in> inFlightTextures s ! unat (currentIndex s)
         \<and> (\<exists>j < length (inFlightTextures s).
               j \<noteq> unat (word_of_int index :: u32) \<and> p \<in> inFlightTextures s ! j)}"

text \<open>The one-slot cache after \<^verbatim>\<open>SetCurrentIndex(0)\<close>.\<close>

definition st_one_next :: TextureCache where
  "st_one_next =
     \<lparr>textures = [1 \<mapsto> tex_live\<lparr>readOnlyImageView := None\<rparr>], destroyed = {},
      cache = Map.empty, inFlightTextures = [{}], trashedImageViews = [[]],
      trashedImages = [[]], trashedMem = [[]], trashedBuffers = [[]], currentIndex = 0\<rparr>"

text \<open>The slot an \<^verbatim>\<open>int\<close> index selects once it is stored in the \<^verbatim>\<open>u32\<close> member.\<close>

definition slot_of :: "int \<Rightarrow> nat" where
  "slot_of i = unat (word_of_int i :: u32)"

text \<open>No in-flight set holds a dangling pointer.\<close>

definition in_flight_valid :: "TextureCache \<Rightarrow> bool" where
  "in_flight_valid s \<longleftrightarrow> (\<forall>S \<in> set (inFlightTextures s). \<forall>p \<in> S. textures s p \<noteq> None)"

text \<open>
  A ring of depth 2 with slot 1 current and the texture in flight there; the same cache after
  \<^verbatim>\<open>DestroyLater\<close> of the texture, then after \<^verbatim>\<open>SetCurrentIndex(0)\<close>, then after
  \<^verbatim>\<open>SetCurrentIndex(1)\<close>.
\<close>

definition st_ring2 :: TextureCache where
  "st_ring2 =
     \<lparr>textures = [1 \<mapsto> tex_live], destroyed = {}, cache = Map.empty,
      inFlightTextures = [{}, {1}], trashedImageViews = [[], []], trashedImages = [[], []],
      trashedMem = [[], []], trashedBuffers = [[], []], currentIndex = 1\<rparr>"

definition st_ring2_trashed :: TextureCache where
  "st_ring2_trashed =
     \<lparr>textures = [1 \<mapsto> tex_trashed], destroyed = {}, cache = Map.empty,
      inFlightTextures = [{}, {1}], trashedImageViews = [[], [Some 11]],
      trashedImages = [[], [Some 10]], trashedMem = [[], [Some 12]],
      trashedBuffers = [[], [Some 13]], currentIndex = 1\<rparr>"

definition st_ring2_a :: TextureCache where
  "st_ring2_a =
     \<lparr>textures = [1 \<mapsto> tex_trashed\<lparr>readOnlyImageView := None\<rparr>], destroyed = {},
      cache = Map.empty,
      inFlightTextures = [{}, {1}], trashedImageViews = [[], [Some 11]],
      trashedImages = [[], [Some 10]], trashedMem = [[], [Some 12]],
      trashedBuffers = [[], [Some 13]], currentIndex = 0\<rparr>"

definition st_ring2_b :: TextureCache where
  "st_ring2_b =
     \<lparr>textures = [1 \<mapsto> tex_trashed\<lparr>readOnlyImageView := None\<rparr>],
      destroyed = {Buffer 13, Memory 12, Image 10, ImageView 11}, cache = Map.empty,
      inFlightTextures = [{}, {}], trashedImageViews = [[], []],
      trashedImages = [[], []], trashedMem = [[], []],
      trashedBuffers = [[], []], currentIndex = 1\<rparr>"

text \<open>
  A device that numbers the samplers it creates, so that no two creations give the same
  handle, and a configuration.
\<close>

definition counting_device :: "int SamplerCreateInfo \<Rightarrow> nat \<Rightarrow> handle \<times> nat" where
  "counting_device info d = (d, Suc d)"

definition env_example :: "int sampler_env" where
  "env_example =
     \<lparr>TextureFiltering = 0, AnisotropicFiltering = 1, SupportsSamplerAnisotropy = True,
      GetMaxSamplerAnisotropy = 16, D_Adjust_LoD_Bias = (\<lambda>_. 0), to_float = (\<lambda>x. x),
      min_float = min\<rparr>"

text \<open>Three descriptors: the first and the third differ only in bits outside the mask.\<close>

definition tsp_a :: TSP where
  "tsp_a = \<lparr>full = 0x2001, MipMapD = 0, FilterMode = 1, ClampU = False, ClampV = False,
            FlipU = False, FlipV = False\<rparr>"

definition tsp_b :: TSP where
  "tsp_b = \<lparr>full = 0x10000, MipMapD = 0, FilterMode = 0, ClampU = True, ClampV = False,
            FlipU = False, FlipV = False\<rparr>"

definition tsp_c :: TSP where
  "tsp_c = \<lparr>full = 0x80002000, MipMapD = 0, FilterMode = 1, ClampU = False, ClampV = False,
            FlipU = False, FlipV = False\<rparr>"

text \<open>What an allocation hands out in the examples.\<close>

definition alloc_example :: allocated where
  "alloc_example = \<lparr>new_image = 40, new_view = 41, new_memory = 42, new_staging = None\<rparr>"

text \<open>The one-slot cache after the texture has been uploaded again as 16 by 4 with mipmaps.\<close>

definition st_one_replaced :: TextureCache where
  "st_one_replaced =
     \<lparr>textures = [1 \<mapsto>
        \<lparr>format = 1, extent = (16, 4), mipmapLevels = 5, needsStaging = False,
         stagingBufferData = None, allocation = Some 42, image_h = Some 40,
         imageView = Some 41, readOnlyImageView = Some 14\<rparr>],
      destroyed = {}, cache = Map.empty,
      inFlightTextures = [{1}], trashedImageViews = [[Some 11]], trashedImages = [[Some 10]],
      trashedMem = [[Some 12]], trashedBuffers = [[Some 13]], currentIndex = 0\<rparr>"

section \<open>Basic facts about the methods\<close>

lemma EmptyTrash_Inr:
  "EmptyTrash emp ci v = Inr (v', d) \<Longrightarrow>
     unat ci < length v' \<and> length v \<le> length v' \<and> v' ! unat ci = emp
     \<and> (\<forall>j. j \<noteq> unat ci \<longrightarrow> j < length v \<longrightarrow> v' ! j = v ! j)"
  by (auto simp: EmptyTrash_def resize_to_def Let_def nth_append split: if_splits)

lemma SetCurrentIndex_Inr:
  assumes "SetCurrentIndex i s = Inr s'"
  obtains h ift e0 tiv dv ti di tm dm tb db where
    "(if unat (currentIndex s) < length (inFlightTextures s)
      then clearReadOnly (inFlightTextures s ! unat (currentIndex s)) (textures s)
      else Inr (textures s)) = Inr h"
    "EmptyTrash {} (word_of_int i) (inFlightTextures s) = Inr (ift, e0)"
    "EmptyTrash [] (word_of_int i) (trashedImageViews s) = Inr (tiv, dv)"
    "EmptyTrash [] (word_of_int i) (trashedImages s) = Inr (ti, di)"
    "EmptyTrash [] (word_of_int i) (trashedMem s) = Inr (tm, dm)"
    "EmptyTrash [] (word_of_int i) (trashedBuffers s) = Inr (tb, db)"
    "s' = s\<lparr>textures := h, currentIndex := word_of_int i, inFlightTextures := ift,
               trashedImageViews := tiv, trashedImages := ti, trashedMem := tm,
               trashedBuffers := tb,
               destroyed := destroyed s \<union> released ImageView dv \<union> released Image di
                              \<union> released Memory dm \<union> released Buffer db\<rparr>"
  using assms unfolding SetCurrentIndex_def Let_def
  by (simp split: sum.splits prod.splits)

lemma SetCurrentIndex_covered:
  assumes "SetCurrentIndex i s = Inr s'"
  shows "covered s'" and "currentIndex s' = word_of_int i"
  using assms by (auto elim!: SetCurrentIndex_Inr simp: covered_def dest!: EmptyTrash_Inr)

lemma SetCurrentIndex_lengths:
  assumes "SetCurrentIndex i s = Inr s'"
  shows "length (inFlightTextures s) \<le> length (inFlightTextures s')"
    and "length (trashedImageViews s) \<le> length (trashedImageViews s')"
    and "length (trashedImages s) \<le> length (trashedImages s')"
    and "length (trashedMem s) \<le> length (trashedMem s')"
    and "length (trashedBuffers s) \<le> length (trashedBuffers s')"
  using assms by (auto elim!: SetCurrentIndex_Inr dest!: EmptyTrash_Inr)

lemma DestroyLater_Inr:
  assumes "DestroyLater obj s = Inr s'"
  obtains t where "textures s obj = Some t" "image_h t = None" "s' = s"
  | t where "textures s obj = Some t" "image_h t \<noteq> None"
      "unat (currentIndex s) < length (trashedImages s)"
      "unat (currentIndex s) < length (trashedImageViews s)"
      "unat (currentIndex s) < length (trashedMem s)"
      "unat (currentIndex s) < length (trashedBuffers s)"
      "s' = s\<lparr>trashedImages :=
                  (trashedImages s)[unat (currentIndex s) :=
                     trashedImages s ! unat (currentIndex s) @ [image_h t]],
               trashedImageViews :=
                  (trashedImageViews s)[unat (currentIndex s) :=
                     trashedImageViews s ! unat (currentIndex s) @ [imageView t]],
               trashedMem :=
                  (trashedMem s)[unat (currentIndex s) :=
                     trashedMem s ! unat (currentIndex s) @ [allocation t]],
               trashedBuffers :=
                  (trashedBuffers s)[unat (currentIndex s) :=
                     trashedBuffers s ! unat (currentIndex s) @ [stagingBufferData t]],
               textures := (textures s)(obj \<mapsto>
                  t\<lparr>image_h := None, imageView := None, allocation := None,
                    stagingBufferData := None, format := eUndefined\<rparr>)\<rparr>"
  using assms unfolding DestroyLater_def Let_def
  by (simp split: option.splits if_splits)

lemma DestroyLater_lengths:
  assumes "DestroyLater obj s = Inr s'"
  shows "length (inFlightTextures s') = length (inFlightTextures s)"
    and "length (trashedImageViews s') = length (trashedImageViews s)"
    and "length (trashedImages s') = length (trashedImages s)"
    and "length (trashedMem s') = length (trashedMem s)"
    and "length (trashedBuffers s') = length (trashedBuffers s)"
  using assms by (auto elim!: DestroyLater_Inr)

lemma SetInFlight_Inr:
  "SetInFlight obj s = Inr s' \<Longrightarrow>
     unat (currentIndex s) < length (inFlightTextures s)
     \<and> s' = s\<lparr>inFlightTextures := (inFlightTextures s)[unat (currentIndex s) :=
                   insert obj (inFlightTextures s ! unat (currentIndex s))]\<rparr>"
  by (simp add: SetInFlight_def Let_def split: if_splits)

lemma clearTexture_Inr:
  "clearTexture D obj s = Inr (b, s') \<Longrightarrow>
     \<exists>h. s' = s\<lparr>inFlightTextures := map (\<lambda>st. st - {obj}) (inFlightTextures s),
                  textures := h\<rparr>"
  by (auto simp: clearTexture_def Let_def split: option.splits prod.splits)

lemma Clear_lengths:
  "length (inFlightTextures (Clear s)) = length (inFlightTextures s)"
  "length (trashedImageViews (Clear s)) = length (trashedImageViews s)"
  "length (trashedImages (Clear s)) = length (trashedImages s)"
  "length (trashedMem (Clear s)) = length (trashedMem s)"
  "length (trashedBuffers (Clear s)) = length (trashedBuffers s)"
  by (simp_all add: Clear_def BaseTextureCache_Clear_def Let_def)

lemma clearTexture_lengths:
  assumes "clearTexture D obj s = Inr (b, s')"
  shows "length (inFlightTextures s') = length (inFlightTextures s)"
    and "trashedImageViews s' = trashedImageViews s"
    and "trashedImages s' = trashedImages s"
    and "trashedMem s' = trashedMem s"
    and "trashedBuffers s' = trashedBuffers s"
  using clearTexture_Inr[OF assms] by auto

lemma step_lengths:
  assumes "step D c s = Inr s'"
  shows "length (inFlightTextures s) \<le> length (inFlightTextures s')
       \<and> length (trashedImageViews s) \<le> length (trashedImageViews s')
       \<and> length (trashedImages s) \<le> length (trashedImages s')
       \<and> length (trashedMem s) \<le> length (trashedMem s')
       \<and> length (trashedBuffers s) \<le> length (trashedBuffers s')"
proof (cases c)
  case (CallSetCurrentIndex i)
  with assms show ?thesis using SetCurrentIndex_lengths[of i s s'] by simp
next
  case (CallIsInFlight t)
  with assms show ?thesis by (simp split: option.splits)
next
  case (CallSetInFlight t)
  with assms show ?thesis by (auto dest!: SetInFlight_Inr)
next
  case (CallDestroyLater t)
  with assms show ?thesis using DestroyLater_lengths[of t s s'] by simp
next
  case CallClear
  with assms have "s' = Clear s" by simp
  then show ?thesis by (simp add: Clear_lengths)
next
  case (CallClearTexture t)
  with assms obtain b where "clearTexture D t s = Inr (b, s')"
    by (simp split: sum.splits prod.splits)
  then show ?thesis by (simp add: clearTexture_lengths)
qed

section \<open>The claims\<close>

text \<open>
  C8.  \<^verbatim>\<open>DestroyLater\<close> leaves every in-flight set as it was (the object stays marked
  wherever it was marked) and does not touch the descriptor-to-object map.
\<close>

theorem DestroyLater_keeps_in_flight:
  "DestroyLater obj s = Inr s' \<Longrightarrow>
     inFlightTextures s' = inFlightTextures s \<and> cache s' = cache s"
  by (erule DestroyLater_Inr) simp_all

theorem DestroyLater_keeps_in_flight_witness:
  "DestroyLater 1 st_one = Inr st_one_trashed
   \<and> inFlightTextures st_one_trashed = inFlightTextures st_one
   \<and> 1 \<in> inFlightTextures st_one_trashed ! 0
   \<and> cache st_one_trashed = cache st_one"
proof -
  have h: "DestroyLater 1 st_one = Inr st_one_trashed"
    by (simp add: DestroyLater_def st_one_def st_one_trashed_def tex_live_def tex_trashed_def)
  show ?thesis
    using h DestroyLater_keeps_in_flight [OF h] by (simp add: st_one_trashed_def st_one_def)
qed

text \<open>
  C4.  A second \<^verbatim>\<open>DestroyLater\<close> right after a first one changes nothing at all: the
  first call appended the image, the view, the allocation and the staging buffer to the bins
  of the current slot once, and left the object without an image; and on an object without
  an image the call is a no-op.
\<close>

theorem DestroyLater_twice:
  assumes "DestroyLater obj s = Inr s1"
  shows "DestroyLater obj s1 = Inr s1
     \<and> (\<forall>t. textures s obj = Some t \<and> image_h t = None \<longrightarrow> s1 = s)
     \<and> (\<forall>t. textures s obj = Some t \<and> image_h t \<noteq> None \<longrightarrow>
          trashedImages s1 ! unat (currentIndex s)
            = trashedImages s ! unat (currentIndex s) @ [image_h t]
        \<and> trashedImageViews s1 ! unat (currentIndex s)
            = trashedImageViews s ! unat (currentIndex s) @ [imageView t]
        \<and> trashedMem s1 ! unat (currentIndex s)
            = trashedMem s ! unat (currentIndex s) @ [allocation t]
        \<and> trashedBuffers s1 ! unat (currentIndex s)
            = trashedBuffers s ! unat (currentIndex s) @ [stagingBufferData t])"
  using assms
proof (cases rule: DestroyLater_Inr)
  case (1 t)
  then show ?thesis by (simp add: DestroyLater_def)
next
  case (2 t)
  have a: "DestroyLater obj s1 = Inr s1"
    by (simp add: DestroyLater_def 2(7))
  have b: "\<forall>t'. textures s obj = Some t' \<and> image_h t' = None \<longrightarrow> s1 = s"
    using 2(1,2) by auto
  have c: "\<forall>t'. textures s obj = Some t' \<and> image_h t' \<noteq> None \<longrightarrow>
          trashedImages s1 ! unat (currentIndex s)
            = trashedImages s ! unat (currentIndex s) @ [image_h t']
        \<and> trashedImageViews s1 ! unat (currentIndex s)
            = trashedImageViews s ! unat (currentIndex s) @ [imageView t']
        \<and> trashedMem s1 ! unat (currentIndex s)
            = trashedMem s ! unat (currentIndex s) @ [allocation t']
        \<and> trashedBuffers s1 ! unat (currentIndex s)
            = trashedBuffers s ! unat (currentIndex s) @ [stagingBufferData t']"
    using 2(1,3,4,5,6) by (simp add: 2(7))
  from a b c show ?thesis by blast
qed

theorem DestroyLater_twice_witness:
  "DestroyLater 1 st_one = Inr st_one_trashed
   \<and> DestroyLater 1 st_one_trashed = Inr st_one_trashed
   \<and> textures st_one 1 = Some tex_live \<and> image_h tex_live \<noteq> None
   \<and> trashedImages st_one_trashed ! unat (currentIndex st_one) = [Some 10]
   \<and> trashedImageViews st_one_trashed ! unat (currentIndex st_one) = [Some 11]
   \<and> trashedMem st_one_trashed ! unat (currentIndex st_one) = [Some 12]
   \<and> trashedBuffers st_one_trashed ! unat (currentIndex st_one) = [Some 13]"
proof -
  have h: "DestroyLater 1 st_one = Inr st_one_trashed"
    by (simp add: DestroyLater_def st_one_def st_one_trashed_def tex_live_def tex_trashed_def)
  have t: "textures st_one 1 = Some tex_live \<and> image_h tex_live \<noteq> None"
    by (simp add: st_one_def tex_live_def)
  show ?thesis
    using h t DestroyLater_twice [OF h] by (simp add: st_one_def tex_live_def)
qed

lemma unat_word_of_int_slot:
  "0 \<le> i \<Longrightarrow> i < 2 ^ 32 \<Longrightarrow> unat (word_of_int i :: u32) = nat i"
  by (simp add: unat_eq_nat_uint take_bit_int_eq_self uint_word_of_int_eq)

lemma slot_bound:
  assumes "i < 2 ^ 32" "unat (word_of_int i :: u32) < n"
  shows "i + 1 \<le> int n"
proof (cases "0 \<le> i")
  case True
  with assms show ?thesis by (simp add: unat_word_of_int_slot)
next
  case False
  then show ?thesis by simp
qed

lemma step_keeps_slots:
  assumes "step D c s = Inr s'" "\<forall>i. c \<noteq> CallSetCurrentIndex i"
  shows "sizes s' = sizes s \<and> currentIndex s' = currentIndex s"
proof (cases c)
  case (CallSetCurrentIndex i)
  with assms show ?thesis by simp
next
  case (CallIsInFlight t)
  with assms show ?thesis by (simp split: option.splits)
next
  case (CallSetInFlight t)
  with assms show ?thesis by (auto dest!: SetInFlight_Inr simp: sizes_def)
next
  case (CallDestroyLater t)
  with assms have d: "DestroyLater t s = Inr s'" by simp
  have "currentIndex s' = currentIndex s"
    using d by (rule DestroyLater_Inr) simp_all
  then show ?thesis using DestroyLater_lengths[OF d] by (simp add: sizes_def)
next
  case CallClear
  with assms have "s' = Clear s" by simp
  moreover have "currentIndex (Clear s) = currentIndex s"
    by (simp add: Clear_def BaseTextureCache_Clear_def Let_def)
  ultimately show ?thesis by (simp add: Clear_lengths sizes_def)
next
  case (CallClearTexture t)
  with assms obtain b where c: "clearTexture D t s = Inr (b, s')"
    by (simp split: sum.splits prod.splits)
  have "currentIndex s' = currentIndex s"
    using clearTexture_Inr[OF c] by auto
  then show ?thesis using clearTexture_lengths[OF c] by (simp add: sizes_def)
qed

lemma run_keeps_slots:
  "run D cs s = Inr s' \<Longrightarrow> \<forall>i. CallSetCurrentIndex i \<notin> set cs \<Longrightarrow>
     sizes s' = sizes s \<and> currentIndex s' = currentIndex s"
proof (induction cs arbitrary: s)
  case Nil
  then show ?case by simp
next
  case (Cons c cs)
  from Cons.prems(1) obtain s1 where s1: "step D c s = Inr s1" "run D cs s1 = Inr s'"
    by (simp split: sum.splits)
  from Cons.prems(2) have "\<forall>i. c \<noteq> CallSetCurrentIndex i" by auto
  from step_keeps_slots[OF s1(1) this] Cons.IH[OF s1(2)] Cons.prems(2)
  show ?case by simp
qed

lemma covered_sizes:
  "sizes s' = sizes s \<Longrightarrow> currentIndex s' = currentIndex s \<Longrightarrow> covered s' = covered s"
  by (simp add: covered_def sizes_def)

lemma run_covered:
  "run D cs s = Inr s' \<Longrightarrow> \<exists>i. CallSetCurrentIndex i \<in> set cs \<Longrightarrow> covered s'"
proof (induction cs arbitrary: s)
  case Nil
  then show ?case by simp
next
  case (Cons c cs)
  from Cons.prems(1) obtain s1 where s1: "step D c s = Inr s1" "run D cs s1 = Inr s'"
    by (simp split: sum.splits)
  show ?case
  proof (cases "\<exists>i. CallSetCurrentIndex i \<in> set cs")
    case True
    then show ?thesis using Cons.IH[OF s1(2)] by simp
  next
    case False
    with Cons.prems(2) obtain i where c: "c = CallSetCurrentIndex i" by auto
    with s1(1) have "covered s1" using SetCurrentIndex_covered(1)[of i s s1] by simp
    moreover from False have "sizes s' = sizes s1 \<and> currentIndex s' = currentIndex s1"
      using run_keeps_slots[OF s1(2)] by simp
    ultimately show ?thesis using covered_sizes[of s' s1] by simp
  qed
qed

lemma new_not_covered: "\<not> covered (new_TextureCache h)"
  by (simp add: covered_def new_TextureCache_def)

lemma run_new_covered:
  assumes "run D cs (new_TextureCache h) = Inr s"
  shows "covered s \<longleftrightarrow> (\<exists>i. CallSetCurrentIndex i \<in> set cs)"
proof
  assume c: "covered s"
  show "\<exists>i. CallSetCurrentIndex i \<in> set cs"
  proof (rule ccontr)
    assume "\<not> (\<exists>i. CallSetCurrentIndex i \<in> set cs)"
    then have "sizes s = sizes (new_TextureCache h) \<and> currentIndex s = currentIndex (new_TextureCache h)"
      using run_keeps_slots[OF assms] by simp
    then have "covered s = covered (new_TextureCache h)" using covered_sizes by blast
    with c new_not_covered show False by simp
  qed
next
  assume "\<exists>i. CallSetCurrentIndex i \<in> set cs"
  then show "covered s" using run_covered[OF assms] by simp
qed

lemma SetInFlight_OutOfRange:
  "SetInFlight obj s = Inl OutOfRange \<longleftrightarrow> \<not> unat (currentIndex s) < length (inFlightTextures s)"
  by (simp add: SetInFlight_def Let_def)

lemma DestroyLater_OutOfRange:
  "textures s obj = Some t \<Longrightarrow> image_h t \<noteq> None \<Longrightarrow>
   DestroyLater obj s = Inl OutOfRange \<longleftrightarrow>
     \<not> (unat (currentIndex s) < length (trashedImages s)
        \<and> unat (currentIndex s) < length (trashedImageViews s)
        \<and> unat (currentIndex s) < length (trashedMem s)
        \<and> unat (currentIndex s) < length (trashedBuffers s))"
  by (auto simp add: DestroyLater_def Let_def)

lemma DestroyLater_covered: "covered s \<Longrightarrow> DestroyLater obj s \<noteq> Inl OutOfRange"
  by (simp add: DestroyLater_def Let_def covered_def split: option.splits)

lemma EmptyTrash_fresh3: "EmptyTrash emp (2 :: u32) [] = Inr ([emp, emp, emp], emp)"
proof -
  have a: "unat ((2 :: u32) + 1) = 3" and b: "unat (2 :: u32) = 2" by simp_all
  have c: "replicate 3 emp = [emp, emp, emp]" by (simp add: numeral_3_eq_3)
  have d: "[emp, emp, emp][2 := emp] = [emp, emp, emp]" "[emp, emp, emp] ! 2 = emp"
    by (simp_all add: numeral_2_eq_2)
  show ?thesis
    unfolding EmptyTrash_def resize_to_def Let_def a b by (simp add: c d)
qed

lemma SetCurrentIndex_fresh3: "SetCurrentIndex 2 (new_TextureCache Map.empty) = Inr st_fresh3"
  by (simp add: SetCurrentIndex_def new_TextureCache_def st_fresh3_def EmptyTrash_fresh3
      released_def)

text \<open>
  C9.  Per-slot bookkeeping grows lazily and never shrinks: when \<^verbatim>\<open>SetCurrentIndex(i)\<close>
  returns, each of the five per-slot vectors has at least \<open>i + 1\<close> elements, and no call of
  the class makes any of the five shorter.
\<close>

theorem per_slot_containers_grow:
  "(SetCurrentIndex i s = Inr s' \<and> i < 2 ^ 31 \<longrightarrow>
       i + 1 \<le> int (length (inFlightTextures s'))
     \<and> i + 1 \<le> int (length (trashedImageViews s'))
     \<and> i + 1 \<le> int (length (trashedImages s'))
     \<and> i + 1 \<le> int (length (trashedMem s'))
     \<and> i + 1 \<le> int (length (trashedBuffers s')))
   \<and> (step D c s = Inr s'' \<longrightarrow>
       length (inFlightTextures s) \<le> length (inFlightTextures s'')
     \<and> length (trashedImageViews s) \<le> length (trashedImageViews s'')
     \<and> length (trashedImages s) \<le> length (trashedImages s'')
     \<and> length (trashedMem s) \<le> length (trashedMem s'')
     \<and> length (trashedBuffers s) \<le> length (trashedBuffers s''))"
proof (intro conjI impI)
  assume a: "SetCurrentIndex i s = Inr s' \<and> i < 2 ^ 31"
  then have c: "covered s'" and ci: "currentIndex s' = word_of_int i"
    using SetCurrentIndex_covered[of i s s'] by simp_all
  from a have i: "i < 2 ^ 32" by simp
  from c ci show "i + 1 \<le> int (length (inFlightTextures s'))"
    by (intro slot_bound[OF i]) (simp add: covered_def)
  from c ci show "i + 1 \<le> int (length (trashedImageViews s'))"
    by (intro slot_bound[OF i]) (simp add: covered_def)
  from c ci show "i + 1 \<le> int (length (trashedImages s'))"
    by (intro slot_bound[OF i]) (simp add: covered_def)
  from c ci show "i + 1 \<le> int (length (trashedMem s'))"
    by (intro slot_bound[OF i]) (simp add: covered_def)
  from c ci show "i + 1 \<le> int (length (trashedBuffers s'))"
    by (intro slot_bound[OF i]) (simp add: covered_def)
next
  assume "step D c s = Inr s''"
  from step_lengths[OF this]
  show "length (inFlightTextures s) \<le> length (inFlightTextures s'')"
    "length (trashedImageViews s) \<le> length (trashedImageViews s'')"
    "length (trashedImages s) \<le> length (trashedImages s'')"
    "length (trashedMem s) \<le> length (trashedMem s'')"
    "length (trashedBuffers s) \<le> length (trashedBuffers s'')"
    by simp_all
qed

theorem per_slot_containers_grow_witness:
  "SetCurrentIndex 2 (new_TextureCache Map.empty) = Inr st_fresh3 \<and> (2 :: int) < 2 ^ 31
   \<and> length (inFlightTextures st_fresh3) = 3
   \<and> (2 :: int) + 1 \<le> int (length (inFlightTextures st_fresh3))
   \<and> (2 :: int) + 1 \<le> int (length (trashedImageViews st_fresh3))
   \<and> (2 :: int) + 1 \<le> int (length (trashedImages st_fresh3))
   \<and> (2 :: int) + 1 \<le> int (length (trashedMem st_fresh3))
   \<and> (2 :: int) + 1 \<le> int (length (trashedBuffers st_fresh3))
   \<and> step (\<lambda>t. (True, t)) (CallSetCurrentIndex 2) (new_TextureCache Map.empty) = Inr st_fresh3
   \<and> length (inFlightTextures (new_TextureCache Map.empty)) \<le> length (inFlightTextures st_fresh3)
   \<and> length (trashedImageViews (new_TextureCache Map.empty)) \<le> length (trashedImageViews st_fresh3)
   \<and> length (trashedImages (new_TextureCache Map.empty)) \<le> length (trashedImages st_fresh3)
   \<and> length (trashedMem (new_TextureCache Map.empty)) \<le> length (trashedMem st_fresh3)
   \<and> length (trashedBuffers (new_TextureCache Map.empty)) \<le> length (trashedBuffers st_fresh3)"
proof -
  have h: "SetCurrentIndex 2 (new_TextureCache Map.empty) = Inr st_fresh3"
    by (simp add: SetCurrentIndex_def new_TextureCache_def st_fresh3_def EmptyTrash_fresh3
        released_def)
  have k: "step (\<lambda>t. (True, t)) (CallSetCurrentIndex 2) (new_TextureCache Map.empty) = Inr st_fresh3"
    using h by simp
  have l: "length (inFlightTextures st_fresh3) = 3" by (simp add: st_fresh3_def)
  show ?thesis
    using h k l
      per_slot_containers_grow [of 2 "new_TextureCache Map.empty" st_fresh3 "\<lambda>t. (True, t)"
        "CallSetCurrentIndex 2" st_fresh3]
    by simp
qed

text \<open>
  C10.  \<^verbatim>\<open>SetInFlight\<close> and \<^verbatim>\<open>DestroyLater\<close> (on an object that has an image)
  index the per-slot vectors at the current slot unchecked: the access is out of range
  exactly when a vector has no element there.  It is in range on a cache whose vectors cover
  the current slot, which is what a \<^verbatim>\<open>SetCurrentIndex\<close> call leaves; from construction,
  the vectors cover the current slot exactly when some \<^verbatim>\<open>SetCurrentIndex\<close> call has been
  made; and on a freshly constructed cache both accesses are out of range.
\<close>

theorem unchecked_slot_access:
  "(SetInFlight obj s = Inl OutOfRange
      \<longleftrightarrow> \<not> unat (currentIndex s) < length (inFlightTextures s))
   \<and> (textures s obj = Some t \<and> image_h t \<noteq> None \<longrightarrow>
        (DestroyLater obj s = Inl OutOfRange
           \<longleftrightarrow> \<not> (unat (currentIndex s) < length (trashedImages s)
                  \<and> unat (currentIndex s) < length (trashedImageViews s)
                  \<and> unat (currentIndex s) < length (trashedMem s)
                  \<and> unat (currentIndex s) < length (trashedBuffers s))))
   \<and> (covered s \<longrightarrow>
        SetInFlight obj s \<noteq> Inl OutOfRange \<and> DestroyLater obj s \<noteq> Inl OutOfRange)
   \<and> (SetCurrentIndex i s = Inr s' \<longrightarrow> covered s')
   \<and> (run D cs (new_TextureCache h) = Inr s'' \<longrightarrow>
        (covered s'' \<longleftrightarrow> (\<exists>j. CallSetCurrentIndex j \<in> set cs)))
   \<and> SetInFlight obj (new_TextureCache h) = Inl OutOfRange
   \<and> (h obj = Some t \<and> image_h t \<noteq> None \<longrightarrow>
        DestroyLater obj (new_TextureCache h) = Inl OutOfRange)"
proof (intro conjI impI)
  show "SetInFlight obj s = Inl OutOfRange
      \<longleftrightarrow> \<not> unat (currentIndex s) < length (inFlightTextures s)"
    by (rule SetInFlight_OutOfRange)
next
  assume "textures s obj = Some t \<and> image_h t \<noteq> None"
  then show "DestroyLater obj s = Inl OutOfRange
           \<longleftrightarrow> \<not> (unat (currentIndex s) < length (trashedImages s)
                  \<and> unat (currentIndex s) < length (trashedImageViews s)
                  \<and> unat (currentIndex s) < length (trashedMem s)
                  \<and> unat (currentIndex s) < length (trashedBuffers s))"
    using DestroyLater_OutOfRange[of s obj t] by simp
next
  assume "covered s"
  then show "SetInFlight obj s \<noteq> Inl OutOfRange"
    by (simp add: SetInFlight_OutOfRange covered_def)
next
  assume "covered s"
  then show "DestroyLater obj s \<noteq> Inl OutOfRange" by (rule DestroyLater_covered)
next
  assume "SetCurrentIndex i s = Inr s'"
  then show "covered s'" by (rule SetCurrentIndex_covered(1))
next
  assume "run D cs (new_TextureCache h) = Inr s''"
  then show "covered s'' \<longleftrightarrow> (\<exists>j. CallSetCurrentIndex j \<in> set cs)"
    by (rule run_new_covered)
next
  show "SetInFlight obj (new_TextureCache h) = Inl OutOfRange"
    by (simp add: SetInFlight_OutOfRange new_TextureCache_def)
next
  assume "h obj = Some t \<and> image_h t \<noteq> None"
  then show "DestroyLater obj (new_TextureCache h) = Inl OutOfRange"
    using DestroyLater_OutOfRange[of "new_TextureCache h" obj t]
    by (simp add: new_TextureCache_def)
qed

theorem unchecked_slot_access_witness:
  "textures st_one 1 = Some tex_live \<and> image_h tex_live \<noteq> None
   \<and> covered st_one
   \<and> SetInFlight 1 st_one \<noteq> Inl OutOfRange \<and> DestroyLater 1 st_one \<noteq> Inl OutOfRange
   \<and> SetCurrentIndex 2 (new_TextureCache [1 \<mapsto> tex_live])
        = Inr (st_fresh3\<lparr>textures := [1 \<mapsto> tex_live]\<rparr>)
   \<and> covered (st_fresh3\<lparr>textures := [1 \<mapsto> tex_live]\<rparr>)
   \<and> run (\<lambda>t. (True, t)) [CallSetCurrentIndex 2] (new_TextureCache [1 \<mapsto> tex_live])
        = Inr (st_fresh3\<lparr>textures := [1 \<mapsto> tex_live]\<rparr>)
   \<and> CallSetCurrentIndex 2 \<in> set [CallSetCurrentIndex 2]
   \<and> SetInFlight 1 (new_TextureCache [1 \<mapsto> tex_live]) = Inl OutOfRange
   \<and> DestroyLater 1 (new_TextureCache [1 \<mapsto> tex_live]) = Inl OutOfRange"
proof -
  have a: "textures st_one 1 = Some tex_live \<and> image_h tex_live \<noteq> None"
    by (simp add: st_one_def tex_live_def)
  have b: "covered st_one" by (simp add: covered_def st_one_def)
  have c: "SetCurrentIndex 2 (new_TextureCache [1 \<mapsto> tex_live])
        = Inr (st_fresh3\<lparr>textures := [1 \<mapsto> tex_live]\<rparr>)"
    by (simp add: SetCurrentIndex_def new_TextureCache_def st_fresh3_def EmptyTrash_fresh3
        released_def)
  have d: "run (\<lambda>t. (True, t)) [CallSetCurrentIndex 2] (new_TextureCache [1 \<mapsto> tex_live])
        = Inr (st_fresh3\<lparr>textures := [1 \<mapsto> tex_live]\<rparr>)"
    using c by simp
  have e: "[1 \<mapsto> tex_live] (1::nat) = Some tex_live \<and> image_h tex_live \<noteq> None"
    by (simp add: tex_live_def)
  note T1 = unchecked_slot_access [where obj = 1 and s = st_one and t = tex_live
        and h = "[1 \<mapsto> tex_live]" and D = "\<lambda>t. (True, t)"
        and cs = "[CallSetCurrentIndex 2]"
        and s'' = "st_fresh3\<lparr>textures := [1 \<mapsto> tex_live]\<rparr>"]
  note T2 = unchecked_slot_access [where s = "new_TextureCache [1 \<mapsto> tex_live]" and i = 2
        and s' = "st_fresh3\<lparr>textures := [1 \<mapsto> tex_live]\<rparr>"]
  have f1: "SetInFlight 1 st_one \<noteq> Inl OutOfRange \<and> DestroyLater 1 st_one \<noteq> Inl OutOfRange"
    using b T1 by blast
  have f2: "covered (st_fresh3\<lparr>textures := [1 \<mapsto> tex_live]\<rparr>)"
    using c T2 by blast
  have f3: "SetInFlight 1 (new_TextureCache [1 \<mapsto> tex_live]) = Inl OutOfRange"
    using T1 by blast
  have f4: "DestroyLater 1 (new_TextureCache [1 \<mapsto> tex_live]) = Inl OutOfRange"
    using e T1 by blast
  have f5: "CallSetCurrentIndex 2 \<in> set [CallSetCurrentIndex 2]" by simp
  from a b c d f1 f2 f3 f4 f5 show ?thesis by blast
qed

lemma IsInFlight_loop_eq:
  assumes v: "length v < 2 ^ 32"
  shows "unat i \<le> length v \<Longrightarrow>
     IsInFlight_loop v ci t i
       = Some (\<exists>j. unat i \<le> j \<and> j < length v \<and> j \<noteq> unat ci \<and> t \<in> v ! j)"
proof (induction "length v - unat i" arbitrary: i)
  case 0
  then have "\<not> unat i < length v" by simp
  then show ?case by (subst IsInFlight_loop.simps) auto
next
  case (Suc n)
  then have lt: "unat i < length v" by simp
  with v have "unat i + 1 < 2 ^ 32" by simp
  then have nx: "unat (i + 1) = unat i + 1"
    by (simp add: unat_word_ariths)
  show ?case
  proof (cases "i \<noteq> ci \<and> t \<in> v ! unat i")
    case True
    then have "unat i \<noteq> unat ci" by (simp add: word_unat_eq_iff)
    with True lt have "\<exists>j. unat i \<le> j \<and> j < length v \<and> j \<noteq> unat ci \<and> t \<in> v ! j"
      by (intro exI[of _ "unat i"]) simp
    with True lt show ?thesis by (subst IsInFlight_loop.simps) simp
  next
    case False
    have ih: "IsInFlight_loop v ci t (i + 1)
       = Some (\<exists>j. unat (i + 1) \<le> j \<and> j < length v \<and> j \<noteq> unat ci \<and> t \<in> v ! j)"
      using Suc.hyps(2) lt nx by (intro Suc.hyps(1)) simp_all
    from False have here: "\<not> (unat i \<noteq> unat ci \<and> t \<in> v ! unat i)"
      by (simp add: word_unat_eq_iff)
    have unfold: "IsInFlight_loop v ci t i = IsInFlight_loop v ci t (i + 1)"
      using False lt by (subst IsInFlight_loop.simps) auto
    have "(\<exists>j. unat (i + 1) \<le> j \<and> j < length v \<and> j \<noteq> unat ci \<and> t \<in> v ! j)
        \<longleftrightarrow> (\<exists>j. unat i \<le> j \<and> j < length v \<and> j \<noteq> unat ci \<and> t \<in> v ! j)"
    proof
      assume "\<exists>j. unat (i + 1) \<le> j \<and> j < length v \<and> j \<noteq> unat ci \<and> t \<in> v ! j"
      then obtain j where j: "unat (i + 1) \<le> j" "j < length v" "j \<noteq> unat ci" "t \<in> v ! j"
        by blast
      from j(1) nx have "unat i \<le> j" by simp
      with j show "\<exists>j. unat i \<le> j \<and> j < length v \<and> j \<noteq> unat ci \<and> t \<in> v ! j"
        by blast
    next
      assume "\<exists>j. unat i \<le> j \<and> j < length v \<and> j \<noteq> unat ci \<and> t \<in> v ! j"
      then obtain j where j: "unat i \<le> j" "j < length v" "j \<noteq> unat ci" "t \<in> v ! j" by blast
      with here have "j \<noteq> unat i" by auto
      with j(1) nx have "unat (i + 1) \<le> j" by simp
      with j show "\<exists>j. unat (i + 1) \<le> j \<and> j < length v \<and> j \<noteq> unat ci \<and> t \<in> v ! j"
        by blast
    qed
    with ih unfold show ?thesis by simp
  qed
qed

lemma IsInFlight_eq:
  "length (inFlightTextures s) < 2 ^ 32 \<Longrightarrow>
     IsInFlight obj s
       = Some (\<exists>j < length (inFlightTextures s).
                 j \<noteq> unat (currentIndex s) \<and> obj \<in> inFlightTextures s ! j)"
  using IsInFlight_loop_eq[of "inFlightTextures s" 0 "currentIndex s" obj]
  by (simp add: IsInFlight_def)

lemma EmptyTrash_length:
  "EmptyTrash emp ci v = Inr (v', d) \<Longrightarrow> length v < 2 ^ 32 \<Longrightarrow> length v' < 2 ^ 32"
proof -
  assume a: "EmptyTrash emp ci v = Inr (v', d)" and b: "length v < 2 ^ 32"
  have "unat (ci + 1) < 2 ^ 32" using unsigned_less[of "ci + 1"] by simp
  with a b show ?thesis
    by (auto simp: EmptyTrash_def resize_to_def Let_def split: if_splits)
qed

lemma step_size_bound:
  assumes "step D c s = Inr s'" "length (inFlightTextures s) < 2 ^ 32"
  shows "length (inFlightTextures s') < 2 ^ 32"
proof (cases "\<exists>i. c = CallSetCurrentIndex i")
  case True
  then obtain i where "c = CallSetCurrentIndex i" by blast
  with assms(1) have "SetCurrentIndex i s = Inr s'" by simp
  then show ?thesis
    using assms(2) by (elim SetCurrentIndex_Inr) (auto dest: EmptyTrash_length)
next
  case False
  then have "sizes s' = sizes s" using step_keeps_slots[OF assms(1)] by simp
  with assms(2) show ?thesis by (simp add: sizes_def)
qed

lemma run_size_bound:
  "run D cs s = Inr s' \<Longrightarrow> length (inFlightTextures s) < 2 ^ 32 \<Longrightarrow>
     length (inFlightTextures s') < 2 ^ 32"
proof (induction cs arbitrary: s)
  case Nil
  then show ?case by simp
next
  case (Cons c cs)
  from Cons.prems(1) obtain s1 where s1: "step D c s = Inr s1" "run D cs s1 = Inr s'"
    by (simp split: sum.splits)
  from step_size_bound[OF s1(1) Cons.prems(2)] Cons.IH[OF s1(2)] show ?case by blast
qed

lemma bin_set_Union: "(\<Union>k. bin_set C v k) = (\<Union>x \<in> set v. released C x)"
proof (intro equalityI subsetI)
  fix r assume "r \<in> (\<Union>k. bin_set C v k)"
  then obtain k where "k < length v" "r \<in> released C (v ! k)"
    by (auto simp: bin_set_def split: if_splits)
  then show "r \<in> (\<Union>x \<in> set v. released C x)" using nth_mem by blast
next
  fix r assume "r \<in> (\<Union>x \<in> set v. released C x)"
  then obtain x where "x \<in> set v" "r \<in> released C x" by blast
  then obtain k where "k < length v" "v ! k = x" by (auto simp: in_set_conv_nth)
  with \<open>r \<in> released C x\<close> have "r \<in> bin_set C v k" by (simp add: bin_set_def)
  then show "r \<in> (\<Union>k. bin_set C v k)" by blast
qed

lemma trash_at_Union:
  "(\<Union>k. trash_at s k)
     = (\<Union>v \<in> set (trashedImageViews s). released ImageView v)
       \<union> (\<Union>v \<in> set (trashedImages s). released Image v)
       \<union> (\<Union>v \<in> set (trashedMem s). released Memory v)
       \<union> (\<Union>v \<in> set (trashedBuffers s). released Buffer v)"
proof -
  have "(\<Union>k. trash_at s k)
     = (\<Union>k. bin_set ImageView (trashedImageViews s) k)
       \<union> (\<Union>k. bin_set Image (trashedImages s) k)
       \<union> (\<Union>k. bin_set Memory (trashedMem s) k)
       \<union> (\<Union>k. bin_set Buffer (trashedBuffers s) k)"
    unfolding trash_at_def by blast
  then show ?thesis by (simp only: bin_set_Union)
qed

lemma Clear_fields:
  "cache (Clear s) = Map.empty"
  "inFlightTextures (Clear s) = map (\<lambda>_. {}) (inFlightTextures s)"
  "trashedImageViews (Clear s) = map (\<lambda>_. []) (trashedImageViews s)"
  "trashedImages (Clear s) = map (\<lambda>_. []) (trashedImages s)"
  "trashedMem (Clear s) = map (\<lambda>_. []) (trashedMem s)"
  "trashedBuffers (Clear s) = map (\<lambda>_. []) (trashedBuffers s)"
  "currentIndex (Clear s) = currentIndex s"
  "destroyed (Clear s) = destroyed s
      \<union> (\<Union>v \<in> set (trashedImageViews s). released ImageView v)
      \<union> (\<Union>v \<in> set (trashedImages s). released Image v)
      \<union> (\<Union>v \<in> set (trashedMem s). released Memory v)
      \<union> (\<Union>v \<in> set (trashedBuffers s). released Buffer v)"
  by (simp_all add: Clear_def BaseTextureCache_Clear_def Let_def)

lemma Clear_trash_at: "trash_at (Clear s) k = {}"
  by (simp add: trash_at_def bin_set_def Clear_fields released_def)

lemma Clear_not_in_flight:
  assumes "length (inFlightTextures s) < 2 ^ 32"
  shows "IsInFlight obj (Clear s) = Some False"
proof -
  have "length (inFlightTextures (Clear s)) < 2 ^ 32"
    using assms by (simp add: Clear_fields)
  from IsInFlight_eq[OF this] show ?thesis by (simp add: Clear_fields)
qed

text \<open>
  C6.  \<^verbatim>\<open>IsInFlight\<close> returns, and returns true exactly when the object is in the
  in-flight set of some slot other than the current one; being in the set of the current
  slot does not count.  This holds on every cache with fewer than \<open>2 ^ 32\<close> slots, which
  includes every cache reached from construction by calls of the class, since the 32-bit
  slot index cannot make a vector longer.
\<close>

theorem IsInFlight_other_slots:
  "(length (inFlightTextures s) < 2 ^ 32 \<longrightarrow>
      IsInFlight obj s
        = Some (\<exists>j < length (inFlightTextures s).
                  j \<noteq> unat (currentIndex s) \<and> obj \<in> inFlightTextures s ! j))
   \<and> (run D cs (new_TextureCache h) = Inr s' \<longrightarrow>
      IsInFlight obj s'
        = Some (\<exists>j < length (inFlightTextures s').
                  j \<noteq> unat (currentIndex s') \<and> obj \<in> inFlightTextures s' ! j))"
proof (intro conjI impI)
  assume "length (inFlightTextures s) < 2 ^ 32"
  then show "IsInFlight obj s
        = Some (\<exists>j < length (inFlightTextures s).
                  j \<noteq> unat (currentIndex s) \<and> obj \<in> inFlightTextures s ! j)"
    by (rule IsInFlight_eq)
next
  assume r: "run D cs (new_TextureCache h) = Inr s'"
  have "length (inFlightTextures (new_TextureCache h)) < 2 ^ 32"
    by (simp add: new_TextureCache_def)
  from run_size_bound[OF r this]
  show "IsInFlight obj s'
        = Some (\<exists>j < length (inFlightTextures s').
                  j \<noteq> unat (currentIndex s') \<and> obj \<in> inFlightTextures s' ! j)"
    by (rule IsInFlight_eq)
qed

theorem IsInFlight_other_slots_witness:
  "length (inFlightTextures st_two) < 2 ^ 32
   \<and> inFlightTextures st_two = [{1}, {2}] \<and> currentIndex st_two = 0
   \<and> IsInFlight 2 st_two = Some True
   \<and> IsInFlight 1 st_two = Some False
   \<and> run (\<lambda>t. (True, t)) [CallSetCurrentIndex 2] (new_TextureCache Map.empty) = Inr st_fresh3
   \<and> IsInFlight 1 st_fresh3 = Some False"
proof -
  have a: "length (inFlightTextures st_two) < 2 ^ 32"
    and b: "inFlightTextures st_two = [{1}, {2}] \<and> currentIndex st_two = 0"
    by (simp_all add: st_two_def)
  have c: "run (\<lambda>t. (True, t)) [CallSetCurrentIndex 2] (new_TextureCache Map.empty) = Inr st_fresh3"
    by (simp add: SetCurrentIndex_fresh3)
  have two: "\<And>j::nat. j < 2 \<Longrightarrow> j \<noteq> 0 \<Longrightarrow> j = 1" by simp
  have d: "\<exists>j < length (inFlightTextures st_two).
             j \<noteq> unat (currentIndex st_two) \<and> 2 \<in> inFlightTextures st_two ! j"
    by (rule exI[of _ 1]) (simp add: st_two_def)
  have e: "\<not> (\<exists>j < length (inFlightTextures st_two).
             j \<noteq> unat (currentIndex st_two) \<and> 1 \<in> inFlightTextures st_two ! j)"
    by (auto simp: st_two_def dest: two)
  have f: "\<not> (\<exists>j < length (inFlightTextures st_fresh3).
             j \<noteq> unat (currentIndex st_fresh3) \<and> 1 \<in> inFlightTextures st_fresh3 ! j)"
    by (auto simp: st_fresh3_def nth_Cons split: nat.splits)
  note T1 = IsInFlight_other_slots [where s = st_two and obj = 2]
  note T2 = IsInFlight_other_slots [where s = st_two and obj = 1 and D = "\<lambda>t. (True, t)"
      and cs = "[CallSetCurrentIndex 2]" and h = Map.empty and s' = st_fresh3]
  have g: "IsInFlight 2 st_two = Some True" using a d T1 by simp
  have h: "IsInFlight 1 st_two = Some False" using a e T2 by simp
  have i: "IsInFlight 1 st_fresh3 = Some False" using c f T2 by simp
  from a b c g h i show ?thesis by blast
qed

text \<open>
  C5.  \<^verbatim>\<open>Clear\<close> drops every cache entry, empties the in-flight set and the four trash
  bins of every slot, whatever the current slot is, and releases all that the bins held;
  right after it no object is in flight.
\<close>

theorem Clear_empties_everything:
  "cache (Clear s) = Map.empty
   \<and> (\<forall>S \<in> set (inFlightTextures (Clear s)). S = {})
   \<and> (\<forall>v \<in> set (trashedImageViews (Clear s)). v = [])
   \<and> (\<forall>v \<in> set (trashedImages (Clear s)). v = [])
   \<and> (\<forall>v \<in> set (trashedMem (Clear s)). v = [])
   \<and> (\<forall>v \<in> set (trashedBuffers (Clear s)). v = [])
   \<and> destroyed (Clear s) = destroyed s \<union> (\<Union>k. trash_at s k)
   \<and> (length (inFlightTextures s) < 2 ^ 32 \<longrightarrow> IsInFlight obj (Clear s) = Some False)"
proof (intro conjI impI)
  show "destroyed (Clear s) = destroyed s \<union> (\<Union>k. trash_at s k)"
    by (simp only: trash_at_Union Clear_fields Un_assoc)
next
  assume "length (inFlightTextures s) < 2 ^ 32"
  then show "IsInFlight obj (Clear s) = Some False" by (rule Clear_not_in_flight)
qed (simp_all add: Clear_fields)

theorem Clear_empties_everything_witness:
  "cache (Clear st_two) = Map.empty
   \<and> inFlightTextures st_two = [{1}, {2}]
   \<and> inFlightTextures (Clear st_two) = [{}, {}]
   \<and> trashedImageViews (Clear st_two) = [[], []]
   \<and> trashedImages (Clear st_two) = [[], []]
   \<and> trashedMem (Clear st_two) = [[], []]
   \<and> trashedBuffers (Clear st_two) = [[], []]
   \<and> destroyed (Clear st_two)
       = {ImageView 21, ImageView 31, Image 20, Image 30, Memory 22, Memory 32, Buffer 33}
   \<and> length (inFlightTextures st_two) < 2 ^ 32
   \<and> IsInFlight 2 (Clear st_two) = Some False"
proof -
  have a: "length (inFlightTextures st_two) < 2 ^ 32" by (simp add: st_two_def)
  have b: "inFlightTextures st_two = [{1}, {2}]" by (simp add: st_two_def)
  have c: "inFlightTextures (Clear st_two) = [{}, {}]"
    "trashedImageViews (Clear st_two) = [[], []]"
    "trashedImages (Clear st_two) = [[], []]"
    "trashedMem (Clear st_two) = [[], []]"
    "trashedBuffers (Clear st_two) = [[], []]"
    by (simp_all add: Clear_fields st_two_def)
  have d: "destroyed (Clear st_two)
       = {ImageView 21, ImageView 31, Image 20, Image 30, Memory 22, Memory 32, Buffer 33}"
    by (auto simp add: Clear_fields st_two_def released_def)
  note T = Clear_empties_everything [where s = st_two and obj = 2]
  have e: "cache (Clear st_two) = Map.empty" using T by blast
  have f: "IsInFlight 2 (Clear st_two) = Some False" using a T by blast
  from a b c d e f show ?thesis by blast
qed

lemma clearReadOnly_Inr:
  "clearReadOnly S h = Inr h' \<Longrightarrow>
     (\<forall>p \<in> S. h p \<noteq> None)
     \<and> h' = (\<lambda>p. if p \<in> S then map_option (\<lambda>t. t\<lparr>readOnlyImageView := None\<rparr>) (h p) else h p)"
  by (auto simp: clearReadOnly_def split: if_splits)

lemma SetCurrentIndex_textures:
  assumes "SetCurrentIndex i s = Inr s'"
  shows "textures s' p =
     (if unat (currentIndex s) < length (inFlightTextures s)
         \<and> p \<in> inFlightTextures s ! unat (currentIndex s)
      then map_option (\<lambda>t. t\<lparr>readOnlyImageView := None\<rparr>) (textures s p)
      else textures s p)"
  using assms
proof (cases rule: SetCurrentIndex_Inr)
  case (1 h ift e0 tiv dv ti di tm dm tb db)
  show ?thesis
  proof (cases "unat (currentIndex s) < length (inFlightTextures s)")
    case True
    with 1(1) have "clearReadOnly (inFlightTextures s ! unat (currentIndex s)) (textures s) = Inr h"
      by simp
    from clearReadOnly_Inr[OF this] True show ?thesis by (simp add: 1(7))
  next
    case False
    with 1(1) show ?thesis by (simp add: 1(7))
  qed
qed

lemma clearReadOnly_single:
  "h p = Some t \<Longrightarrow> clearReadOnly {p} h = Inr (h(p \<mapsto> t\<lparr>readOnlyImageView := None\<rparr>))"
  by (auto simp: clearReadOnly_def fun_eq_iff)

lemma EmptyTrash_0: "EmptyTrash emp (0 :: u32) (x # xs) = Inr (emp # xs, x)"
  by (simp add: EmptyTrash_def resize_to_def)

lemma EmptyTrash_1: "EmptyTrash emp (1 :: u32) (x # y # xs) = Inr (x # emp # xs, y)"
  by (simp add: EmptyTrash_def resize_to_def)

lemma SetCurrentIndex_st_one: "SetCurrentIndex 0 st_one = Inr st_one_next"
  by (simp add: SetCurrentIndex_def st_one_def st_one_next_def EmptyTrash_0
      clearReadOnly_single released_def Let_def)

text \<open>
  C7, as stated, fails when the slot being vacated is the new current slot too: with one
  slot, texture 1 is in flight in slot 0 only, so in no slot other than the new current one,
  and \<^verbatim>\<open>SetCurrentIndex(0)\<close> clears its alias view all the same.
\<close>

theorem alias_cleared_counterexample:
  "SetCurrentIndex 0 st_one = Inr st_one_next
   \<and> map_option readOnlyImageView (textures st_one 1) = Some (Some 14)
   \<and> map_option readOnlyImageView (textures st_one_next 1) = Some None
   \<and> 1 \<notin> claimed_cleared 0 st_one"
proof -
  have "map_option readOnlyImageView (textures st_one 1) = Some (Some 14)"
    by (simp add: st_one_def tex_live_def)
  moreover have "map_option readOnlyImageView (textures st_one_next 1) = Some None"
    by (simp add: st_one_next_def)
  moreover have "1 \<notin> claimed_cleared 0 st_one"
    by (simp add: claimed_cleared_def st_one_def)
  ultimately show ?thesis using SetCurrentIndex_st_one by blast
qed

text \<open>
  C7, amended.  As its first effect \<^verbatim>\<open>SetCurrentIndex\<close> clears the alias view of every
  object in the in-flight set of the slot being vacated (when the in-flight vector has that
  slot), whatever other slots the object is in flight in, and leaves every other object as
  it was; for the cleared objects the read-only view is the primary view.
\<close>

theorem SetCurrentIndex_clears_vacated_aliases:
  assumes "SetCurrentIndex i s = Inr s'" and "textures s obj = Some t"
  shows "(unat (currentIndex s) < length (inFlightTextures s)
            \<and> obj \<in> inFlightTextures s ! unat (currentIndex s) \<longrightarrow>
          textures s' obj = Some (t\<lparr>readOnlyImageView := None\<rparr>)
          \<and> GetReadOnlyImageView (t\<lparr>readOnlyImageView := None\<rparr>) = GetImageView t)
       \<and> (\<not> (unat (currentIndex s) < length (inFlightTextures s)
            \<and> obj \<in> inFlightTextures s ! unat (currentIndex s)) \<longrightarrow>
          textures s' obj = Some t)"
  using SetCurrentIndex_textures[OF assms(1), of obj] assms(2)
  by (simp add: GetReadOnlyImageView_def GetImageView_def)

theorem SetCurrentIndex_clears_vacated_aliases_witness:
  "SetCurrentIndex 0 st_one = Inr st_one_next \<and> textures st_one 1 = Some tex_live
   \<and> unat (currentIndex st_one) < length (inFlightTextures st_one)
   \<and> 1 \<in> inFlightTextures st_one ! unat (currentIndex st_one)
   \<and> readOnlyImageView tex_live = Some 14
   \<and> textures st_one_next 1 = Some (tex_live\<lparr>readOnlyImageView := None\<rparr>)
   \<and> GetReadOnlyImageView (tex_live\<lparr>readOnlyImageView := None\<rparr>) = Some 11
   \<and> SetCurrentIndex 1 st_two
        = Inr (st_two\<lparr>textures := [1 \<mapsto> tex_live\<lparr>readOnlyImageView := None\<rparr>, 2 \<mapsto> tex_live],
                 currentIndex := 1, inFlightTextures := [{1}, {}],
                 trashedImageViews := [[Some 21], []], trashedImages := [[Some 20], []],
                 trashedMem := [[Some 22], []], trashedBuffers := [[None], []],
                 destroyed := {Buffer 33, Memory 32, Image 30, ImageView 31}\<rparr>)
   \<and> textures st_two 2 = Some tex_live
   \<and> 2 \<notin> inFlightTextures st_two ! unat (currentIndex st_two)
   \<and> textures (st_two\<lparr>textures := [1 \<mapsto> tex_live\<lparr>readOnlyImageView := None\<rparr>, 2 \<mapsto> tex_live],
                 currentIndex := 1, inFlightTextures := [{1}, {}],
                 trashedImageViews := [[Some 21], []], trashedImages := [[Some 20], []],
                 trashedMem := [[Some 22], []], trashedBuffers := [[None], []],
                 destroyed := {Buffer 33, Memory 32, Image 30, ImageView 31}\<rparr>) 2 = Some tex_live"
proof -
  have a: "textures st_one 1 = Some tex_live" by (simp add: st_one_def)
  have b: "unat (currentIndex st_one) < length (inFlightTextures st_one)
       \<and> 1 \<in> inFlightTextures st_one ! unat (currentIndex st_one)"
    by (simp add: st_one_def)
  have c: "readOnlyImageView tex_live = Some 14" by (simp add: tex_live_def)
  note T1 = SetCurrentIndex_clears_vacated_aliases [OF SetCurrentIndex_st_one a]
  have d: "textures st_one_next 1 = Some (tex_live\<lparr>readOnlyImageView := None\<rparr>)"
    using T1 b by blast
  have "GetImageView tex_live = Some 11" by (simp add: GetImageView_def tex_live_def)
  then have e: "GetReadOnlyImageView (tex_live\<lparr>readOnlyImageView := None\<rparr>) = Some 11"
    using T1 b by simp
  have f: "SetCurrentIndex 1 st_two
        = Inr (st_two\<lparr>textures := [1 \<mapsto> tex_live\<lparr>readOnlyImageView := None\<rparr>, 2 \<mapsto> tex_live],
                 currentIndex := 1, inFlightTextures := [{1}, {}],
                 trashedImageViews := [[Some 21], []], trashedImages := [[Some 20], []],
                 trashedMem := [[Some 22], []], trashedBuffers := [[None], []],
                 destroyed := {Buffer 33, Memory 32, Image 30, ImageView 31}\<rparr>)"
    by (simp add: SetCurrentIndex_def st_two_def EmptyTrash_1 clearReadOnly_single
        released_def Let_def fun_upd_twist)
  have g: "textures st_two 2 = Some tex_live" by (simp add: st_two_def)
  have h: "2 \<notin> inFlightTextures st_two ! unat (currentIndex st_two)" by (simp add: st_two_def)
  note T2 = SetCurrentIndex_clears_vacated_aliases [OF f g]
  have i: "textures (st_two\<lparr>textures := [1 \<mapsto> tex_live\<lparr>readOnlyImageView := None\<rparr>, 2 \<mapsto> tex_live],
                 currentIndex := 1, inFlightTextures := [{1}, {}],
                 trashedImageViews := [[Some 21], []], trashedImages := [[Some 20], []],
                 trashedMem := [[Some 22], []], trashedBuffers := [[None], []],
                 destroyed := {Buffer 33, Memory 32, Image 30, ImageView 31}\<rparr>) 2 = Some tex_live"
    using T2 h by blast
  from SetCurrentIndex_st_one a b c d e f g h i show ?thesis by blast
qed

lemma released_append: "released C (xs @ [x]) = released C xs \<union> released C [x]"
  by (auto simp: released_def)

lemma released_Nil: "released C [] = {}"
  by (simp add: released_def)

lemma EmptyTrash_bins:
  assumes "EmptyTrash [] ci v = Inr (v', d)"
  shows "released C d = bin_set C v (unat ci)"
    and "bin_set C v' k = (if k = unat ci then {} else bin_set C v k)"
proof -
  let ?w = "resize_to [] (unat (ci + 1)) v"
  from assms have lt: "unat ci < length ?w" and v': "v' = ?w[unat ci := []]" and d: "d = ?w ! unat ci"
    by (auto simp: EmptyTrash_def Let_def split: if_splits)
  have w: "\<And>j. j < length ?w \<Longrightarrow> ?w ! j = (if j < length v then v ! j else [])"
    by (auto simp: resize_to_def nth_append)
  have len: "length v \<le> length ?w" by (simp add: resize_to_def)
  show "released C d = bin_set C v (unat ci)"
    using lt by (simp add: d w bin_set_def released_Nil)
  show "bin_set C v' k = (if k = unat ci then {} else bin_set C v k)"
  proof (cases "k = unat ci")
    case True
    with lt show ?thesis by (simp add: v' bin_set_def released_Nil)
  next
    case False
    then show ?thesis using len by (auto simp: v' bin_set_def w released_Nil)
  qed
qed

lemma SetCurrentIndex_trash:
  assumes "SetCurrentIndex i s = Inr s'"
  shows "destroyed s' = destroyed s \<union> trash_at s (slot_of i)
       \<and> trash_at s' k = (if k = slot_of i then {} else trash_at s k)"
  using assms
proof (cases rule: SetCurrentIndex_Inr)
  case (1 h ift e0 tiv dv ti di tm dm tb db)
  note b = EmptyTrash_bins[OF 1(3)] EmptyTrash_bins[OF 1(4)] EmptyTrash_bins[OF 1(5)]
    EmptyTrash_bins[OF 1(6)]
  have "destroyed s' = destroyed s \<union> trash_at s (slot_of i)"
    by (simp add: 1(7) b(1,3,5,7) trash_at_def slot_of_def Un_assoc)
  moreover have "trash_at s' k = (if k = slot_of i then {} else trash_at s k)"
    by (simp add: 1(7) b(2,4,6,8) trash_at_def slot_of_def)
  ultimately show ?thesis by simp
qed

lemma run_slots_trash:
  "run_slots js s = Inr s' \<Longrightarrow>
     destroyed s' = destroyed s \<union> (\<Union>j \<in> set js. trash_at s (slot_of j))
     \<and> (\<forall>k. trash_at s' k = (if k \<in> slot_of ` set js then {} else trash_at s k))"
proof (induction js arbitrary: s)
  case Nil
  then show ?case by simp
next
  case (Cons j js)
  from Cons.prems obtain s1 where s1: "SetCurrentIndex j s = Inr s1" "run_slots js s1 = Inr s'"
    by (simp split: sum.splits)
  have a: "destroyed s1 = destroyed s \<union> trash_at s (slot_of j)"
    using SetCurrentIndex_trash[OF s1(1)] by simp
  note ih = Cons.IH[OF s1(2)]
  have t1: "\<And>k. trash_at s1 k = (if k = slot_of j then {} else trash_at s k)"
    using SetCurrentIndex_trash[OF s1(1)] by simp
  have "destroyed s' = destroyed s1 \<union> (\<Union>j' \<in> set js. trash_at s1 (slot_of j'))"
    using ih by simp
  also have "\<dots> = destroyed s \<union> (\<Union>j' \<in> set (j # js). trash_at s (slot_of j'))"
    unfolding a t1 by auto
  finally have d: "destroyed s' = destroyed s \<union> (\<Union>j' \<in> set (j # js). trash_at s (slot_of j'))" .
  have "\<forall>k. trash_at s' k = (if k \<in> slot_of ` set (j # js) then {} else trash_at s k)"
    using ih t1 by auto
  with d show ?case by simp
qed

lemma DestroyLater_trash:
  assumes "DestroyLater obj s = Inr s1" "textures s obj = Some t" "image_h t \<noteq> None"
  shows "destroyed s1 = destroyed s
       \<and> trash_at s1 k
          = (if k = unat (currentIndex s) then trash_at s k \<union> sub_resources t else trash_at s k)"
  using assms(1)
proof (cases rule: DestroyLater_Inr)
  case (1 t')
  with assms show ?thesis by simp
next
  case (2 t')
  with assms(2) have tt: "t' = t" by simp
  have "destroyed s1 = destroyed s" by (simp add: 2(7))
  moreover have "trash_at s1 k
          = (if k = unat (currentIndex s) then trash_at s k \<union> sub_resources t else trash_at s k)"
    using 2(3,4,5,6)
    by (auto simp: 2(7) tt trash_at_def bin_set_def sub_resources_def released_append)
  ultimately show ?thesis by simp
qed

lemma slot_of_int: "m < 2 ^ 32 \<Longrightarrow> slot_of (int m) = m"
  using unat_word_of_int_slot[of "int m"] by (simp add: slot_of_def)

lemma cycle_back:
  fixes k R i :: nat
  assumes "k < R"
  shows "(k + i) mod R = k \<longleftrightarrow> R dvd i"
proof
  assume a: "(k + i) mod R = k"
  have "(k + i) mod R = (k + i mod R) mod R" by (simp add: mod_add_right_eq)
  with a have b: "(k + i mod R) mod R = k" by simp
  have "i mod R < R" using assms by simp
  show "R dvd i"
  proof (cases "k + i mod R < R")
    case True
    with b have "i mod R = 0" by simp
    then show ?thesis by (simp add: dvd_eq_mod_eq_0)
  next
    case False
    have lt2: "k + i mod R - R < R" using assms \<open>i mod R < R\<close> by arith
    have "(k + i mod R) mod R = (k + i mod R - R) mod R"
      using False by (simp add: le_mod_geq)
    also have "\<dots> = k + i mod R - R" using lt2 by (rule mod_less)
    finally have "(k + i mod R) mod R = k + i mod R - R" .
    with b False \<open>i mod R < R\<close> have False by arith
    then show ?thesis ..
  qed
next
  assume "R dvd i"
  then show "(k + i) mod R = k" using assms by (auto simp: dvd_def)
qed

lemma cycle_slots_hits:
  assumes "k < R" "R \<le> 2 ^ 31"
  shows "k \<in> slot_of ` set (cycle_slots R k n) \<longleftrightarrow> R \<le> n"
proof -
  have sl: "\<And>i. slot_of (int ((k + i) mod R)) = (k + i) mod R"
  proof -
    fix i
    have "(k + i) mod R < R" using assms(1) by simp
    with assms(2) have "(k + i) mod R < 2 ^ 32" by simp
    then show "slot_of (int ((k + i) mod R)) = (k + i) mod R" by (rule slot_of_int)
  qed
  have "set (cycle_slots R k n) = (\<lambda>i. int ((k + i) mod R)) ` {1..n}"
    by (simp only: cycle_slots_def set_map set_upt atLeastLessThanSuc_atLeastAtMost)
  then have "slot_of ` set (cycle_slots R k n) = (\<lambda>i. (k + i) mod R) ` {1..n}"
    by (simp add: image_image sl)
  then have "k \<in> slot_of ` set (cycle_slots R k n) \<longleftrightarrow> (\<exists>i \<in> {1..n}. (k + i) mod R = k)"
    by (simp only: image_iff) (rule bex_cong, simp, rule eq_commute)
  also have "\<dots> \<longleftrightarrow> (\<exists>i \<in> {1..n}. R dvd i)"
    using cycle_back[OF assms(1)] by simp
  also have "\<dots> \<longleftrightarrow> R \<le> n"
  proof
    assume "\<exists>i \<in> {1..n}. R dvd i"
    then obtain i where "1 \<le> i" "i \<le> n" "R dvd i" by auto
    then have "R \<le> i" by (auto dest: dvd_imp_le)
    with \<open>i \<le> n\<close> show "R \<le> n" by simp
  next
    assume "R \<le> n"
    moreover have "0 < R" using assms(1) by simp
    ultimately show "\<exists>i \<in> {1..n}. R dvd i" by (intro bexI[of _ R]) simp_all
  qed
  finally show ?thesis .
qed

lemma EmptyTrash_total:
  assumes "unat ci < 2 ^ 31"
  shows "\<exists>v' d. EmptyTrash emp ci v = Inr (v', d) \<and> set v' \<subseteq> insert emp (set v)"
proof -
  have "unat ci + 1 < 2 ^ 32" using assms by simp
  then have nx: "unat (ci + 1) = unat ci + 1" by (simp add: unat_word_ariths)
  let ?w = "resize_to emp (unat (ci + 1)) v"
  have lt: "unat ci < length ?w" by (simp add: resize_to_def nx)
  have "set ?w \<subseteq> insert emp (set v)" by (auto simp: resize_to_def)
  moreover have "set (?w[unat ci := emp]) \<subseteq> insert emp (set ?w)" by (rule set_update_subset_insert)
  ultimately have "set (?w[unat ci := emp]) \<subseteq> insert emp (set v)" by blast
  with lt show ?thesis by (simp add: EmptyTrash_def Let_def)
qed

lemma slot_of_small: "0 \<le> i \<Longrightarrow> i < 2 ^ 31 \<Longrightarrow> unat (word_of_int i :: u32) < 2 ^ 31"
  using unat_word_of_int_slot[of i] by simp

lemma SetCurrentIndex_total:
  assumes v: "in_flight_valid s" and i: "0 \<le> i" "i < 2 ^ 31"
  shows "\<exists>s'. SetCurrentIndex i s = Inr s' \<and> in_flight_valid s'"
proof -
  let ?ci = "word_of_int i :: u32"
  have small: "unat ?ci < 2 ^ 31" using i by (rule slot_of_small)
  have "\<exists>h. (if unat (currentIndex s) < length (inFlightTextures s)
      then clearReadOnly (inFlightTextures s ! unat (currentIndex s)) (textures s)
      else Inr (textures s)) = Inr h"
  proof (cases "unat (currentIndex s) < length (inFlightTextures s)")
    case True
    then have "inFlightTextures s ! unat (currentIndex s) \<in> set (inFlightTextures s)"
      by (rule nth_mem)
    with v have "\<not> (\<exists>p \<in> inFlightTextures s ! unat (currentIndex s). textures s p = None)"
      unfolding in_flight_valid_def by blast
    with True show ?thesis by (simp add: clearReadOnly_def)
  next
    case False
    then show ?thesis by simp
  qed
  then obtain h where h: "(if unat (currentIndex s) < length (inFlightTextures s)
      then clearReadOnly (inFlightTextures s ! unat (currentIndex s)) (textures s)
      else Inr (textures s)) = Inr h" by blast
  obtain ift e0 where e1: "EmptyTrash {} ?ci (inFlightTextures s) = Inr (ift, e0)"
      and sub: "set ift \<subseteq> insert {} (set (inFlightTextures s))"
    using EmptyTrash_total[OF small, where emp = "{}" and v = "inFlightTextures s"] by blast
  obtain tiv dv where e2: "EmptyTrash [] ?ci (trashedImageViews s) = Inr (tiv, dv)"
    using EmptyTrash_total[OF small, where emp = "[]" and v = "trashedImageViews s"] by blast
  obtain ti di where e3: "EmptyTrash [] ?ci (trashedImages s) = Inr (ti, di)"
    using EmptyTrash_total[OF small, where emp = "[]" and v = "trashedImages s"] by blast
  obtain tm dm where e4: "EmptyTrash [] ?ci (trashedMem s) = Inr (tm, dm)"
    using EmptyTrash_total[OF small, where emp = "[]" and v = "trashedMem s"] by blast
  obtain tb db where e5: "EmptyTrash [] ?ci (trashedBuffers s) = Inr (tb, db)"
    using EmptyTrash_total[OF small, where emp = "[]" and v = "trashedBuffers s"] by blast
  define s' where "s' = s\<lparr>textures := h, currentIndex := ?ci, inFlightTextures := ift,
               trashedImageViews := tiv, trashedImages := ti, trashedMem := tm,
               trashedBuffers := tb,
               destroyed := destroyed s \<union> released ImageView dv \<union> released Image di
                              \<union> released Memory dm \<union> released Buffer db\<rparr>"
  have r: "SetCurrentIndex i s = Inr s'"
    unfolding SetCurrentIndex_def Let_def h e1 e2 e3 e4 e5 s'_def by simp
  have dom: "\<And>p. textures s p \<noteq> None \<Longrightarrow> textures s' p \<noteq> None"
    using SetCurrentIndex_textures[OF r] by auto
  have "inFlightTextures s' = ift" by (simp add: s'_def)
  with sub v dom have "in_flight_valid s'"
    unfolding in_flight_valid_def by blast
  with r show ?thesis by blast
qed

lemma run_slots_total:
  "in_flight_valid s \<Longrightarrow> \<forall>j \<in> set js. 0 \<le> j \<and> j < 2 ^ 31 \<Longrightarrow>
     \<exists>s'. run_slots js s = Inr s'"
proof (induction js arbitrary: s)
  case Nil
  then show ?case by simp
next
  case (Cons j js)
  then obtain s1 where s1: "SetCurrentIndex j s = Inr s1" "in_flight_valid s1"
    using SetCurrentIndex_total[of s j] by auto
  from Cons.IH[OF s1(2)] Cons.prems(2) obtain s' where "run_slots js s1 = Inr s'" by auto
  with s1(1) show ?case by simp
qed

lemma DestroyLater_valid:
  assumes "DestroyLater obj s = Inr s1" "in_flight_valid s"
  shows "in_flight_valid s1"
  using assms(1)
proof (cases rule: DestroyLater_Inr)
  case (1 t)
  with assms(2) show ?thesis by simp
next
  case (2 t)
  with assms(2) show ?thesis by (auto simp: in_flight_valid_def 2(7))
qed

lemma cycle_slots_range:
  assumes "k < R" "R \<le> 2 ^ 31"
  shows "\<forall>j \<in> set (cycle_slots R k n). 0 \<le> j \<and> j < 2 ^ 31"
proof
  fix j assume "j \<in> set (cycle_slots R k n)"
  then obtain i where j: "j = int ((k + i) mod R)" by (auto simp: cycle_slots_def)
  have "(k + i) mod R < R" using assms(1) by simp
  with assms(2) have "(k + i) mod R < 2 ^ 31" by simp
  then have "int ((k + i) mod R) < 2 ^ 31" by simp
  with j show "0 \<le> j \<and> j < 2 ^ 31" by simp
qed

text \<open>
  C1.  In a ring of depth \<open>R\<close>, let \<^verbatim>\<open>DestroyLater\<close> move the sub-resources of an object
  to the trash while slot \<open>k\<close> is current, and let \<open>r\<close> be one of them, held nowhere else.
  Then the \<open>n\<close> slot changes \<open>k + 1, k + 2, \<dots>\<close> (modulo \<open>R\<close>) that follow all return,
  and after them \<open>r\<close> has been released exactly when \<open>R \<le> n\<close>: the release happens at the
  \<open>R\<close>-th change, the one that makes slot \<open>k\<close> current again, after \<open>R - 1\<close> changes
  during which \<open>r\<close> stays in the bin of slot \<open>k\<close>.
\<close>

theorem trash_released_when_slot_returns:
  assumes "k < R" and "R \<le> 2 ^ 31"
    and "unat (currentIndex s) = k" and "in_flight_valid s"
    and "textures s obj = Some t" and "image_h t \<noteq> None"
    and "r \<in> sub_resources t" and "r \<notin> destroyed s" and "\<forall>j. r \<notin> trash_at s j"
    and "DestroyLater obj s = Inr s1"
  shows "\<exists>sn. run_slots (cycle_slots R k n) s1 = Inr sn
           \<and> (r \<in> destroyed sn \<longleftrightarrow> R \<le> n)
           \<and> (n < R \<longrightarrow> r \<in> trash_at sn k)"
proof -
  have "in_flight_valid s1" using assms(10,4) by (rule DestroyLater_valid)
  then obtain sn where sn: "run_slots (cycle_slots R k n) s1 = Inr sn"
    using run_slots_total cycle_slots_range[OF assms(1,2)] by blast
  note d = DestroyLater_trash[OF assms(10,5,6)]
  have d1: "r \<notin> destroyed s1" using d assms(8) by simp
  have t1: "\<And>j. r \<in> trash_at s1 j \<longleftrightarrow> j = k"
    using DestroyLater_trash[OF assms(10,5,6)] assms(3,7,9) by auto
  note rs = run_slots_trash[OF sn]
  have "r \<in> destroyed sn \<longleftrightarrow> (\<exists>j \<in> set (cycle_slots R k n). r \<in> trash_at s1 (slot_of j))"
    using rs d1 by auto
  also have "\<dots> \<longleftrightarrow> k \<in> slot_of ` set (cycle_slots R k n)"
    unfolding t1 by auto
  also have "\<dots> \<longleftrightarrow> R \<le> n" by (rule cycle_slots_hits[OF assms(1,2)])
  finally have a: "r \<in> destroyed sn \<longleftrightarrow> R \<le> n" .
  have b: "n < R \<longrightarrow> r \<in> trash_at sn k"
  proof
    assume "n < R"
    then have "k \<notin> slot_of ` set (cycle_slots R k n)"
      using cycle_slots_hits[OF assms(1,2), of n] by simp
    then have "trash_at sn k = trash_at s1 k" using rs by simp
    then show "r \<in> trash_at sn k" using t1 by simp
  qed
  from sn a b show ?thesis by blast
qed

lemma clearReadOnly_empty: "clearReadOnly {} h = Inr h"
  by (simp add: clearReadOnly_def)

lemma ring2_destroy: "DestroyLater 1 st_ring2 = Inr st_ring2_trashed"
  by (simp add: DestroyLater_def st_ring2_def st_ring2_trashed_def tex_live_def tex_trashed_def)

lemma ring2_a: "SetCurrentIndex 0 st_ring2_trashed = Inr st_ring2_a"
  by (simp add: SetCurrentIndex_def st_ring2_trashed_def st_ring2_a_def EmptyTrash_0
      clearReadOnly_single released_def Let_def)

lemma ring2_b: "SetCurrentIndex 1 st_ring2_a = Inr st_ring2_b"
  by (simp add: SetCurrentIndex_def st_ring2_a_def st_ring2_b_def EmptyTrash_1
      clearReadOnly_empty released_def Let_def)

theorem trash_released_when_slot_returns_witness:
  "(1 :: nat) < 2 \<and> (2 :: nat) \<le> 2 ^ 31
   \<and> unat (currentIndex st_ring2) = 1 \<and> in_flight_valid st_ring2
   \<and> textures st_ring2 1 = Some tex_live \<and> image_h tex_live \<noteq> None
   \<and> Image 10 \<in> sub_resources tex_live \<and> Image 10 \<notin> destroyed st_ring2
   \<and> Image 10 \<notin> trash_at st_ring2 0 \<and> Image 10 \<notin> trash_at st_ring2 1
   \<and> DestroyLater 1 st_ring2 = Inr st_ring2_trashed
   \<and> cycle_slots 2 1 1 = [0]
   \<and> run_slots [0] st_ring2_trashed = Inr st_ring2_a
   \<and> Image 10 \<notin> destroyed st_ring2_a \<and> Image 10 \<in> trash_at st_ring2_a 1
   \<and> cycle_slots 2 1 2 = [0, 1]
   \<and> run_slots [0, 1] st_ring2_trashed = Inr st_ring2_b
   \<and> Image 10 \<in> destroyed st_ring2_b"
proof -
  have a: "(1 :: nat) < 2" "(2 :: nat) \<le> 2 ^ 31" by simp_all
  have b: "unat (currentIndex st_ring2) = 1" by (simp add: st_ring2_def)
  have c: "in_flight_valid st_ring2" by (simp add: in_flight_valid_def st_ring2_def)
  have d: "textures st_ring2 1 = Some tex_live" by (simp add: st_ring2_def)
  have e: "image_h tex_live \<noteq> None" by (simp add: tex_live_def)
  have f: "Image 10 \<in> sub_resources tex_live"
    by (simp add: sub_resources_def released_def tex_live_def)
  have g: "Image 10 \<notin> destroyed st_ring2" by (simp add: st_ring2_def)
  have h: "\<forall>j. Image 10 \<notin> trash_at st_ring2 j"
    by (auto simp: trash_at_def bin_set_def released_def st_ring2_def nth_Cons split: nat.splits)
  have c1: "cycle_slots 2 1 1 = [0]" by (simp add: cycle_slots_def)
  have c2: "cycle_slots 2 1 2 = [0, 1]" by (simp add: cycle_slots_def upt_rec)
  have r1: "run_slots [0] st_ring2_trashed = Inr st_ring2_a" by (simp add: ring2_a)
  have r2: "run_slots [0, 1] st_ring2_trashed = Inr st_ring2_b" by (simp add: ring2_a ring2_b)
  note T = trash_released_when_slot_returns [OF a b c d e f g h ring2_destroy]
  from T [of 1] r1 have k: "Image 10 \<notin> destroyed st_ring2_a \<and> Image 10 \<in> trash_at st_ring2_a 1"
    unfolding c1 by auto
  from T [of 2] r2 have l: "Image 10 \<in> destroyed st_ring2_b"
    unfolding c2 by auto
  from a b c d e f g h c1 c2 r1 r2 k l ring2_destroy show ?thesis by blast
qed

lemma GetSampler_result:
  assumes "GetSampler env cr tsp (m, d) = (h, m', d')"
  shows "samplers m' (full tsp AND TSP_Mask) = Some h
       \<and> (\<forall>k v. samplers m k = Some v \<longrightarrow> samplers m' k = Some v)"
proof (cases "samplers m (full tsp AND TSP_Mask)")
  case None
  with assms show ?thesis
    by (auto simp: GetSampler_def Let_def split: prod.splits)
next
  case (Some v)
  with assms show ?thesis
    by (auto simp: GetSampler_def Let_def)
qed

lemma GetSamplers_result:
  "GetSamplers env cr tsps (m, d) = (hs, m', d') \<Longrightarrow>
     length hs = length tsps
     \<and> (\<forall>i < length tsps. samplers m' (full (tsps ! i) AND TSP_Mask) = Some (hs ! i))
     \<and> (\<forall>k v. samplers m k = Some v \<longrightarrow> samplers m' k = Some v)"
proof (induction tsps arbitrary: m d hs m' d')
  case Nil
  then show ?case by simp
next
  case (Cons tsp tsps)
  obtain h m1 d1 where g: "GetSampler env cr tsp (m, d) = (h, m1, d1)"
    by (metis prod_cases3)
  obtain hs1 m2 d2 where r: "GetSamplers env cr tsps (m1, d1) = (hs1, m2, d2)"
    by (metis prod_cases3)
  from Cons.prems g r have eq: "hs = h # hs1" "m' = m2" "d' = d2" by simp_all
  note a = GetSampler_result[OF g]
  note ih = Cons.IH[OF r]
  have "\<forall>i < length (tsp # tsps).
          samplers m2 (full ((tsp # tsps) ! i) AND TSP_Mask) = Some ((h # hs1) ! i)"
  proof (intro allI impI)
    fix i assume "i < length (tsp # tsps)"
    then show "samplers m2 (full ((tsp # tsps) ! i) AND TSP_Mask) = Some ((h # hs1) ! i)"
      using a ih by (cases i) auto
  qed
  moreover have "\<forall>k v. samplers m k = Some v \<longrightarrow> samplers m2 k = Some v"
    using a ih by blast
  ultimately show ?case using ih by (simp add: eq)
qed

text \<open>
  C3.  Over any sequence of \<^verbatim>\<open>GetSampler\<close> calls on one manager (with no \<^verbatim>\<open>term\<close> in
  between), two calls whose descriptors agree on the bits of \<^verbatim>\<open>TSP_Mask\<close> return the same
  handle, whatever the other bits are and whatever the device would hand out for a new
  sampler; in particular repeated calls with one descriptor keep returning the same handle.
\<close>

theorem GetSampler_memoized:
  assumes "GetSamplers env cr tsps md = (hs, md')"
    and "i < length tsps" and "j < length tsps"
    and "full (tsps ! i) AND TSP_Mask = full (tsps ! j) AND TSP_Mask"
  shows "hs ! i = hs ! j"
proof -
  obtain m d where md: "md = (m, d)" by (cases md)
  obtain m' d' where md': "md' = (m', d')" by (cases md')
  from GetSamplers_result[OF assms(1)[unfolded md md']] assms(2,3)
  have "samplers m' (full (tsps ! i) AND TSP_Mask) = Some (hs ! i)"
    and "samplers m' (full (tsps ! j) AND TSP_Mask) = Some (hs ! j)" by blast+
  with assms(4) show ?thesis by simp
qed

lemma mask_a: "full tsp_a AND TSP_Mask = 0x2000"
  by (simp add: tsp_a_def TSP_Mask_def)

lemma mask_b: "full tsp_b AND TSP_Mask = 0x10000"
  by (simp add: tsp_b_def TSP_Mask_def)

lemma mask_c: "full tsp_c AND TSP_Mask = 0x2000"
  by (simp add: tsp_c_def TSP_Mask_def)

theorem GetSampler_memoized_witness:
  "GetSamplers env_example counting_device [tsp_a, tsp_b, tsp_c, tsp_a]
      (\<lparr>samplers = Map.empty\<rparr>, 100)
     = ([100, 101, 100, 100], \<lparr>samplers = [0x2000 \<mapsto> 100, 0x10000 \<mapsto> 101]\<rparr>, 102)
   \<and> (0 :: nat) < length [tsp_a, tsp_b, tsp_c, tsp_a]
   \<and> (2 :: nat) < length [tsp_a, tsp_b, tsp_c, tsp_a]
   \<and> full tsp_a \<noteq> full tsp_c
   \<and> full ([tsp_a, tsp_b, tsp_c, tsp_a] ! 0) AND TSP_Mask
       = full ([tsp_a, tsp_b, tsp_c, tsp_a] ! 2) AND TSP_Mask
   \<and> [100, 101, 100, 100 :: nat] ! 0 = [100, 101, 100, 100] ! 2"
proof -
  have r: "GetSamplers env_example counting_device [tsp_a, tsp_b, tsp_c, tsp_a]
      (\<lparr>samplers = Map.empty\<rparr>, 100)
     = ([100, 101, 100, 100], \<lparr>samplers = [0x2000 \<mapsto> 100, 0x10000 \<mapsto> 101]\<rparr>, 102)"
    by (simp add: GetSampler_def mask_a mask_b mask_c counting_device_def Let_def)
  have l: "(0 :: nat) < length [tsp_a, tsp_b, tsp_c, tsp_a]"
    "(2 :: nat) < length [tsp_a, tsp_b, tsp_c, tsp_a]" by simp_all
  have n: "full tsp_a \<noteq> full tsp_c" by (simp add: tsp_a_def tsp_c_def)
  have k: "full ([tsp_a, tsp_b, tsp_c, tsp_a] ! 0) AND TSP_Mask
       = full ([tsp_a, tsp_b, tsp_c, tsp_a] ! 2) AND TSP_Mask"
    by (simp add: mask_a mask_c)
  from r l n k GetSampler_memoized [OF r l k] show ?thesis by blast
qed

lemma UploadToGPU_reuse:
  "textures s obj = Some t \<Longrightarrow> image_h t \<noteq> None \<Longrightarrow>
   extent t = (word_of_int width, word_of_int height) \<Longrightarrow> format t = fmt \<Longrightarrow>
     UploadToGPU alloc obj width height fmt mm mi s = Inr s"
  by (simp add: UploadToGPU_def)

lemma UploadToGPU_replace:
  assumes t: "textures s obj = Some t"
    and diff: "\<not> (image_h t \<noteq> None \<and> extent t = (word_of_int width, word_of_int height)
                \<and> format t = fmt)"
    and up: "UploadToGPU (Some a) obj width height fmt mm mi s = Inr s'"
  shows "\<exists>s1. DestroyLater obj s = Inr s1
      \<and> s' = s1\<lparr>textures := (textures s1)(obj \<mapsto>
                t\<lparr>format := fmt,
                  extent := (word_of_int width, word_of_int height),
                  mipmapLevels :=
                    (if mm then of_nat (log2 (nat (max width height)) + 1) else 1),
                  stagingBufferData := new_staging a,
                  allocation := Some (new_memory a),
                  image_h := Some (new_image a),
                  imageView := Some (new_view a)\<rparr>)\<rparr>"
proof (cases "DestroyLater obj s")
  case (Inl e)
  with t diff up show ?thesis by (auto simp: UploadToGPU_def)
next
  case (Inr s1)
  with t diff up show ?thesis by (auto simp: UploadToGPU_def)
qed

lemma trash_at_textures: "trash_at (s\<lparr>textures := h\<rparr>) k = trash_at s k"
  by (simp add: trash_at_def)

text \<open>
  C2.  An upload to an object that has an image of the same extent and format leaves the
  cache and the object as they are: the image handle is reused and nothing is trashed.
  Otherwise a successful upload gives the object the newly allocated image, with
  \<open>log2 (max width height) + 1\<close> levels when mipmaps are requested and 1 level when not, and
  the sub-resources of the old image are added to the trash of the current slot; and the
  upload does succeed when the per-slot vectors cover the current slot.
\<close>

theorem UploadToGPU_reuses_or_replaces:
  assumes "textures s obj = Some t"
  shows "(image_h t \<noteq> None \<and> extent t = (word_of_int width, word_of_int height)
            \<and> format t = fmt \<longrightarrow>
          UploadToGPU alloc obj width height fmt mipmapped mipmapsIncluded s = Inr s)
       \<and> (\<not> (image_h t \<noteq> None \<and> extent t = (word_of_int width, word_of_int height)
               \<and> format t = fmt)
            \<and> UploadToGPU (Some a) obj width height fmt mipmapped mipmapsIncluded s = Inr s' \<longrightarrow>
          (\<exists>t'. textures s' obj = Some t'
                \<and> image_h t' = Some (new_image a)
                \<and> extent t' = (word_of_int width, word_of_int height)
                \<and> format t' = fmt
                \<and> mipmapLevels t'
                    = (if mipmapped then of_nat (log2 (nat (max width height)) + 1) else 1))
          \<and> (\<forall>k. trash_at s' k
                    = (if k = unat (currentIndex s) \<and> image_h t \<noteq> None
                       then trash_at s k \<union> sub_resources t else trash_at s k)))
       \<and> (\<not> (image_h t \<noteq> None \<and> extent t = (word_of_int width, word_of_int height)
               \<and> format t = fmt)
            \<and> covered s \<longrightarrow>
          (\<exists>s'. UploadToGPU (Some a) obj width height fmt mipmapped mipmapsIncluded s = Inr s'))"
proof (intro conjI impI)
  assume "image_h t \<noteq> None \<and> extent t = (word_of_int width, word_of_int height)
            \<and> format t = fmt"
  with assms show "UploadToGPU alloc obj width height fmt mipmapped mipmapsIncluded s = Inr s"
    by (simp add: UploadToGPU_reuse)
next
  assume a: "\<not> (image_h t \<noteq> None \<and> extent t = (word_of_int width, word_of_int height)
               \<and> format t = fmt)
            \<and> UploadToGPU (Some a) obj width height fmt mipmapped mipmapsIncluded s = Inr s'"
  then obtain s1 where s1: "DestroyLater obj s = Inr s1"
      and s': "s' = s1\<lparr>textures := (textures s1)(obj \<mapsto>
                t\<lparr>format := fmt,
                  extent := (word_of_int width, word_of_int height),
                  mipmapLevels :=
                    (if mipmapped then of_nat (log2 (nat (max width height)) + 1) else 1),
                  stagingBufferData := new_staging a,
                  allocation := Some (new_memory a),
                  image_h := Some (new_image a),
                  imageView := Some (new_view a)\<rparr>)\<rparr>"
    using UploadToGPU_replace[OF assms, of width height fmt a mipmapped mipmapsIncluded s'] by blast
  show "\<exists>t'. textures s' obj = Some t'
                \<and> image_h t' = Some (new_image a)
                \<and> extent t' = (word_of_int width, word_of_int height)
                \<and> format t' = fmt
                \<and> mipmapLevels t'
                    = (if mipmapped then of_nat (log2 (nat (max width height)) + 1) else 1)"
    by (simp add: s')
  show "\<forall>k. trash_at s' k
                    = (if k = unat (currentIndex s) \<and> image_h t \<noteq> None
                       then trash_at s k \<union> sub_resources t else trash_at s k)"
  proof (cases "image_h t = None")
    case True
    with assms have "DestroyLater obj s = Inr s" by (simp add: DestroyLater_def)
    with s1 have "s1 = s" by simp
    with True show ?thesis by (simp add: s' trash_at_textures)
  next
    case False
    from DestroyLater_trash[OF s1 assms False] False
    show ?thesis by (simp add: s' trash_at_textures)
  qed
next
  assume a: "\<not> (image_h t \<noteq> None \<and> extent t = (word_of_int width, word_of_int height)
               \<and> format t = fmt) \<and> covered s"
  then have "DestroyLater obj s \<noteq> Inl OutOfRange" by (simp add: DestroyLater_covered)
  moreover have "DestroyLater obj s \<noteq> Inl InvalidPointer"
       "DestroyLater obj s \<noteq> Inl NoReturn" "DestroyLater obj s \<noteq> Inl ResourceExhausted"
    using assms by (simp_all add: DestroyLater_def Let_def)
  ultimately obtain s1 where "DestroyLater obj s = Inr s1"
    by (cases "DestroyLater obj s") (metis error.exhaust, blast)
  with a assms
  show "\<exists>s'. UploadToGPU (Some a) obj width height fmt mipmapped mipmapsIncluded s = Inr s'"
    by (auto simp: UploadToGPU_def)
qed

lemma log2_16: "log2 16 = 4"
  by code_simp

lemma UploadToGPU_replace_eq:
  assumes "textures s obj = Some t"
    and "\<not> (image_h t \<noteq> None \<and> extent t = (word_of_int width, word_of_int height)
                \<and> format t = fmt)"
    and "DestroyLater obj s = Inr s1"
  shows "UploadToGPU (Some a) obj width height fmt mm mi s
     = Inr (s1\<lparr>textures := (textures s1)(obj \<mapsto>
                t\<lparr>format := fmt,
                  extent := (word_of_int width, word_of_int height),
                  mipmapLevels :=
                    (if mm then of_nat (log2 (nat (max width height)) + 1) else 1),
                  stagingBufferData := new_staging a,
                  allocation := Some (new_memory a),
                  image_h := Some (new_image a),
                  imageView := Some (new_view a)\<rparr>)\<rparr>)"
  using assms by (auto simp: UploadToGPU_def)

theorem UploadToGPU_reuses_or_replaces_witness:
  "textures st_one 1 = Some tex_live
   \<and> image_h tex_live \<noteq> None \<and> extent tex_live = (word_of_int 8, word_of_int 8)
   \<and> format tex_live = 1
   \<and> UploadToGPU None 1 8 8 1 True False st_one = Inr st_one
   \<and> extent tex_live \<noteq> (word_of_int 16, word_of_int 4)
   \<and> covered st_one
   \<and> UploadToGPU (Some alloc_example) 1 16 4 1 True False st_one = Inr st_one_replaced
   \<and> map_option image_h (textures st_one_replaced 1) = Some (Some 40)
   \<and> map_option mipmapLevels (textures st_one_replaced 1) = Some 5
   \<and> trash_at st_one_replaced 0 = trash_at st_one 0 \<union> sub_resources tex_live
   \<and> Image 10 \<in> trash_at st_one_replaced 0"
proof -
  have a: "textures st_one 1 = Some tex_live" by (simp add: st_one_def)
  have b: "image_h tex_live \<noteq> None \<and> extent tex_live = (word_of_int 8, word_of_int 8)
       \<and> format tex_live = 1"
    by (simp add: tex_live_def)
  have c: "extent tex_live \<noteq> (word_of_int 16, word_of_int 4)" by (simp add: tex_live_def)
  have d: "covered st_one" by (simp add: covered_def st_one_def)
  have dl: "DestroyLater 1 st_one = Inr st_one_trashed"
    by (simp add: DestroyLater_def st_one_def st_one_trashed_def tex_live_def tex_trashed_def)
  have lv: "(of_nat (log2 (nat (max 16 4)) + 1) :: u32) = 5" by (simp add: log2_16)
  have c': "\<not> (image_h tex_live \<noteq> None
         \<and> extent tex_live = (word_of_int 16, word_of_int 4) \<and> format tex_live = 1)"
    using c by simp
  have e: "UploadToGPU (Some alloc_example) 1 16 4 1 True False st_one = Inr st_one_replaced"
    unfolding UploadToGPU_replace_eq [OF a c' dl, of alloc_example True False] lv
    by (simp add: tex_live_def st_one_trashed_def st_one_replaced_def alloc_example_def)
  have ci: "unat (currentIndex st_one) = 0" by (simp add: st_one_def)
  note T1 = UploadToGPU_reuses_or_replaces [OF a, where width = 8 and height = 8 and fmt = 1
      and alloc = None and mipmapped = True and mipmapsIncluded = False]
  note T2 = UploadToGPU_reuses_or_replaces [OF a, where width = 16 and height = 4 and fmt = 1
      and a = alloc_example and mipmapped = True and mipmapsIncluded = False
      and s' = st_one_replaced]
  have f: "UploadToGPU None 1 8 8 1 True False st_one = Inr st_one" using T1 b by blast
  have g: "trash_at st_one_replaced 0 = trash_at st_one 0 \<union> sub_resources tex_live"
    using T2 c e b ci by simp
  have h: "map_option image_h (textures st_one_replaced 1) = Some (Some 40)"
    "map_option mipmapLevels (textures st_one_replaced 1) = Some 5"
    by (simp_all add: st_one_replaced_def)
  have "Image 10 \<in> sub_resources tex_live"
    by (simp add: sub_resources_def released_def tex_live_def)
  with g have i: "Image 10 \<in> trash_at st_one_replaced 0" by simp
  from a b c d e f g h i show ?thesis by blast
qed

end
